theory Spec2Isabelle
  imports Main "HOL-Library.Word" "HOL-Library.Log_Nat"
begin

unbundle bit_operations_syntax

section \<open>Machine types\<close>

text \<open>
  The embedding follows \<^verbatim>\<open>src/setup.c\<close> on an LP64 Linux target: \<^verbatim>\<open>unsigned\<close> and
  \<^verbatim>\<open>int\<close> are 32 bits wide, \<^verbatim>\<open>size_t\<close>, \<^verbatim>\<open>unsigned long\<close> and pointers are 64 bits
  wide. Arithmetic on words wraps around as the C arithmetic on unsigned types does.
\<close>

type_synonym u32 = "32 word"
type_synonym u64 = "64 word"
type_synonym addr = "64 word"

section \<open>Bit-math utilities\<close>

text \<open>
  \<^verbatim>\<open>static int __fls(int x)\<close>. The argument is kept as the 32-bit pattern of the
  \<^verbatim>\<open>int\<close>: every test of the source masks it with an unsigned constant, and the left
  shifts are taken modulo \<open>2 ^ 32\<close>. The counter \<^verbatim>\<open>r\<close> is a C \<^verbatim>\<open>int\<close> that stays
  between 0 and 32.
\<close>

definition fls :: "u32 \<Rightarrow> int" where
  "fls x0 =
     (if x0 = 0 then 0
      else
        let (x, r) = (x0, 32 :: int);
            (x, r) = (if x AND 0xffff0000 = 0 then (push_bit 16 x, r - 16) else (x, r));
            (x, r) = (if x AND 0xff000000 = 0 then (push_bit 8 x, r - 8) else (x, r));
            (x, r) = (if x AND 0xf0000000 = 0 then (push_bit 4 x, r - 4) else (x, r));
            (x, r) = (if x AND 0xc0000000 = 0 then (push_bit 2 x, r - 2) else (x, r));
            (x, r) = (if x AND 0x80000000 = 0 then (push_bit 1 x, r - 1) else (x, r))
        in r)"

text \<open>
  \<^verbatim>\<open>static unsigned roundup_pow2(unsigned depth)\<close>: \<^verbatim>\<open>1UL << __fls(depth - 1)\<close> is computed
  on 64 bits and truncated to the 32-bit return type.
\<close>

definition roundup_pow2 :: "u32 \<Rightarrow> u32" where
  "roundup_pow2 depth = ucast (push_bit (nat (fls (depth - 1))) (1 :: u64))"

text \<open>
  \<^verbatim>\<open>static size_t npages(size_t size, unsigned page_size)\<close>. The quotient is passed to
  \<^verbatim>\<open>__fls\<close>, whose parameter is an \<^verbatim>\<open>int\<close>, so only its low 32 bits are looked at. The
  division is undefined in C for a zero page size: the model returns \<open>None\<close> there.
\<close>

definition npages :: "u64 \<Rightarrow> u32 \<Rightarrow> u64 option" where
  "npages size0 page_size =
     (if page_size = 0 then None
      else
        let size1 = size0 - 1;
            size2 = size1 div ucast page_size
        in Some (of_int (fls (ucast size2))))"

section \<open>Declarations taken from the headers\<close>

text \<open>
  \<^verbatim>\<open>setup.c\<close> includes \<^verbatim>\<open>liburing/io_uring.h\<close> and \<^verbatim>\<open>liburing.h\<close>, which are not among the
  sources at hand. The sizes and constants it takes from them are parameters of the model: a
  value of type \<open>uapi\<close> is passed to every function that uses one. All results below hold
  for every such value unless a hypothesis says otherwise; \<open>linux_uapi\<close> carries the values
  of the Linux user-space API and is used for concrete evaluation only.
\<close>

record uapi =
  sizeof_sqe :: u64
  sizeof_cqe :: u64
  sizeof_probe :: u64
  sizeof_probe_op :: u64
  IORING_OFF_SQ_RING :: u64
  IORING_OFF_CQ_RING :: u64
  IORING_OFF_SQES :: u64
  IORING_FEAT_SINGLE_MMAP :: u32
  IORING_FEAT_NATIVE_WORKERS :: u32
  IORING_SETUP_CQSIZE :: u32
  IORING_SETUP_CLAMP :: u32

definition linux_uapi :: uapi where
  "linux_uapi =
     \<lparr>sizeof_sqe = 64, sizeof_cqe = 16, sizeof_probe = 16, sizeof_probe_op = 8,
      IORING_OFF_SQ_RING = 0, IORING_OFF_CQ_RING = 0x8000000, IORING_OFF_SQES = 0x10000000,
      IORING_FEAT_SINGLE_MMAP = 1, IORING_FEAT_NATIVE_WORKERS = 0x200,
      IORING_SETUP_CQSIZE = 8, IORING_SETUP_CLAMP = 0x10\<rparr>"

text \<open>Constants of the C library on Linux: \<^verbatim>\<open>MAP_FAILED\<close> is \<^verbatim>\<open>(void *) -1\<close>.\<close>

definition MAP_FAILED :: addr where
  "MAP_FAILED = - 1"

definition EINVAL :: int where
  "EINVAL = 22"

definition ENOMEM :: int where
  "ENOMEM = 12"

text \<open>\<^verbatim>\<open>struct io_sqring_offsets\<close>, \<^verbatim>\<open>struct io_cqring_offsets\<close> and
  \<^verbatim>\<open>struct io_uring_params\<close>, with the fields that \<^verbatim>\<open>setup.c\<close> reads or writes.\<close>

record io_sqring_offsets =
  sqo_head :: u32
  sqo_tail :: u32
  sqo_ring_mask :: u32
  sqo_ring_entries :: u32
  sqo_flags :: u32
  sqo_dropped :: u32
  sqo_array :: u32

record io_cqring_offsets =
  cqo_head :: u32
  cqo_tail :: u32
  cqo_ring_mask :: u32
  cqo_ring_entries :: u32
  cqo_overflow :: u32
  cqo_cqes :: u32
  cqo_flags :: u32

record io_uring_params =
  sq_entries :: u32
  cq_entries :: u32
  p_flags :: u32
  p_features :: u32
  sq_off :: io_sqring_offsets
  cq_off :: io_cqring_offsets

definition zero_params :: io_uring_params where
  "zero_params =
     \<lparr>sq_entries = 0, cq_entries = 0, p_flags = 0, p_features = 0,
      sq_off = \<lparr>sqo_head = 0, sqo_tail = 0, sqo_ring_mask = 0, sqo_ring_entries = 0,
                sqo_flags = 0, sqo_dropped = 0, sqo_array = 0\<rparr>,
      cq_off = \<lparr>cqo_head = 0, cqo_tail = 0, cqo_ring_mask = 0, cqo_ring_entries = 0,
                cqo_overflow = 0, cqo_cqes = 0, cqo_flags = 0\<rparr>\<rparr>"

text \<open>\<^verbatim>\<open>struct io_uring_sq\<close>, \<^verbatim>\<open>struct io_uring_cq\<close> and \<^verbatim>\<open>struct io_uring\<close>. Pointers are
  addresses; \<^verbatim>\<open>NULL\<close> is address 0. The fields \<^verbatim>\<open>sq\<close>, \<^verbatim>\<open>cq\<close>, \<^verbatim>\<open>flags\<close> and
  \<^verbatim>\<open>features\<close> of the ring are \<open>ring_sq\<close>, \<open>ring_cq\<close>, \<open>ring_flags\<close> and \<open>ring_features\<close>
  here, the fields \<^verbatim>\<open>flags\<close> and \<^verbatim>\<open>features\<close> of the params \<open>p_flags\<close> and \<open>p_features\<close>.\<close>

record io_uring_sq =
  sq_khead :: addr
  sq_ktail :: addr
  sq_kring_mask :: addr
  sq_kring_entries :: addr
  sq_kflags :: addr
  sq_kdropped :: addr
  sq_array :: addr
  sq_sqes :: addr
  sq_ring_sz :: u64
  sq_ring_ptr :: addr

record io_uring_cq =
  cq_khead :: addr
  cq_ktail :: addr
  cq_kring_mask :: addr
  cq_kring_entries :: addr
  cq_kflags :: addr
  cq_koverflow :: addr
  cq_cqes :: addr
  cq_ring_sz :: u64
  cq_ring_ptr :: addr

record io_uring =
  ring_sq :: io_uring_sq
  ring_cq :: io_uring_cq
  ring_flags :: u32
  ring_fd :: int
  ring_features :: u32

text \<open>The result of \<^verbatim>\<open>memset(ring, 0, sizeof(*ring))\<close>.\<close>

definition zero_ring :: io_uring where
  "zero_ring =
     \<lparr>ring_sq = \<lparr>sq_khead = 0, sq_ktail = 0, sq_kring_mask = 0, sq_kring_entries = 0,
             sq_kflags = 0, sq_kdropped = 0, sq_array = 0, sq_sqes = 0, sq_ring_sz = 0,
             sq_ring_ptr = 0\<rparr>,
      ring_cq = \<lparr>cq_khead = 0, cq_ktail = 0, cq_kring_mask = 0, cq_kring_entries = 0,
             cq_kflags = 0, cq_koverflow = 0, cq_cqes = 0, cq_ring_sz = 0, cq_ring_ptr = 0\<rparr>,
      ring_flags = 0, ring_fd = 0, ring_features = 0\<rparr>"

section \<open>The operating system\<close>

text \<open>
  The code talks to the kernel and the C library through \<^verbatim>\<open>mmap\<close>, \<^verbatim>\<open>munmap\<close>,
  \<^verbatim>\<open>close\<close>, \<^verbatim>\<open>malloc\<close>, \<^verbatim>\<open>free\<close>, \<^verbatim>\<open>memset\<close>, \<^verbatim>\<open>sysconf\<close>, and through
  \<^verbatim>\<open>__sys_io_uring_setup\<close> and \<^verbatim>\<open>io_uring_register_probe\<close>. A \<open>world\<close> holds what these
  calls will answer (one scripted reply per call, consumed in order, so every run of the
  real system is some world), the state they act on (\<^verbatim>\<open>errno\<close>, the live mappings, the
  open descriptors, the shared memory as the kernel last wrote it) and the calls made so far.
\<close>

datatype call =
    Call_setup u32 io_uring_params
  | Call_mmap u64 int u64 addr
  | Call_munmap addr u64
  | Call_close int
  | Call_malloc u64 addr
  | Call_memset addr u64
  | Call_free addr
  | Call_register_probe int addr u32

record world =
  setup_replies :: "(int + int \<times> io_uring_params) list"
  mmap_replies :: "(int + addr) list"
  malloc_replies :: "addr list"
  register_replies :: "int list"
  pagesize_reply :: int
  shared :: "addr \<Rightarrow> u32"
  errno :: int
  mappings :: "(addr \<times> u64) list"
  open_fds :: "int list"
  trace :: "call list"

definition log_call :: "call \<Rightarrow> world \<Rightarrow> world" where
  "log_call c w = w\<lparr>trace := trace w @ [c]\<rparr>"

text \<open>\<^verbatim>\<open>mmap(0, len, PROT_READ | PROT_WRITE, MAP_SHARED | MAP_POPULATE, fd, off)\<close>: a reply
  \<open>Inl e\<close> is a failure that sets \<^verbatim>\<open>errno\<close> to \<open>e\<close>, a reply \<open>Inr a\<close> a new mapping at
  \<open>a\<close>. A world whose replies are used up refuses with \<^verbatim>\<open>ENOMEM\<close>.\<close>

definition sys_mmap :: "u64 \<Rightarrow> int \<Rightarrow> u64 \<Rightarrow> world \<Rightarrow> addr \<times> world" where
  "sys_mmap len fd off w =
     (case mmap_replies w of
        [] \<Rightarrow> (MAP_FAILED, log_call (Call_mmap len fd off MAP_FAILED) (w\<lparr>errno := ENOMEM\<rparr>))
      | Inl e # rs \<Rightarrow>
          (MAP_FAILED,
           log_call (Call_mmap len fd off MAP_FAILED) (w\<lparr>mmap_replies := rs, errno := e\<rparr>))
      | Inr a # rs \<Rightarrow>
          (a, log_call (Call_mmap len fd off a)
                (w\<lparr>mmap_replies := rs, mappings := (a, len) # mappings w\<rparr>)))"

text \<open>\<^verbatim>\<open>munmap(ptr, len)\<close> releases the mapping of that base and length; the code never
  looks at its result.\<close>

definition sys_munmap :: "addr \<Rightarrow> u64 \<Rightarrow> world \<Rightarrow> world" where
  "sys_munmap ptr len w =
     log_call (Call_munmap ptr len) (w\<lparr>mappings := remove1 (ptr, len) (mappings w)\<rparr>)"

definition sys_close :: "int \<Rightarrow> world \<Rightarrow> world" where
  "sys_close fd w = log_call (Call_close fd) (w\<lparr>open_fds := remove1 fd (open_fds w)\<rparr>)"

text \<open>Modelled from the spec: \<^verbatim>\<open>__sys_io_uring_setup\<close> is declared in \<^verbatim>\<open>syscall.h\<close> and
  defined outside the sources at hand. It is the channel-open call: on success it returns a
  live descriptor and writes the resolved layout and features into the params; it fails
  with the error code in \<^verbatim>\<open>errno\<close> and returns \<open>-1\<close>.\<close>

definition sys_io_uring_setup ::
    "u32 \<Rightarrow> io_uring_params \<Rightarrow> world \<Rightarrow> int \<times> io_uring_params \<times> world" where
  "sys_io_uring_setup entries p w =
     (case setup_replies w of
        [] \<Rightarrow> (- 1, p, log_call (Call_setup entries p) (w\<lparr>errno := ENOMEM\<rparr>))
      | Inl e # rs \<Rightarrow>
          (- 1, p, log_call (Call_setup entries p) (w\<lparr>setup_replies := rs, errno := e\<rparr>))
      | Inr (fd, p') # rs \<Rightarrow>
          (fd, p', log_call (Call_setup entries p)
                     (w\<lparr>setup_replies := rs, open_fds := fd # open_fds w\<rparr>)))"

text \<open>\<^verbatim>\<open>malloc(len)\<close> answers with a pointer, \<^verbatim>\<open>NULL\<close> when it fails or when the replies
  are used up.\<close>

definition sys_malloc :: "u64 \<Rightarrow> world \<Rightarrow> addr \<times> world" where
  "sys_malloc len w =
     (case malloc_replies w of
        [] \<Rightarrow> (0, log_call (Call_malloc len 0) w)
      | a # rs \<Rightarrow> (a, log_call (Call_malloc len a) (w\<lparr>malloc_replies := rs\<rparr>)))"

text \<open>Modelled from the spec: \<^verbatim>\<open>io_uring_register_probe\<close> is declared in \<^verbatim>\<open>liburing.h\<close>
  and defined outside the sources at hand. It is the registration-style query for the
  supported-operation bitmap; a negative result is a failure.\<close>

definition io_uring_register_probe ::
    "io_uring \<Rightarrow> addr \<Rightarrow> u32 \<Rightarrow> world \<Rightarrow> int \<times> world" where
  "io_uring_register_probe ring probe nr w =
     (case register_replies w of
        [] \<Rightarrow> (- 1, log_call (Call_register_probe (ring_fd ring) probe nr) w)
      | r # rs \<Rightarrow>
          (r, log_call (Call_register_probe (ring_fd ring) probe nr)
                (w\<lparr>register_replies := rs\<rparr>)))"

section \<open>Mapping and unmapping the rings\<close>

text \<open>\<^verbatim>\<open>static void io_uring_unmap_rings(struct io_uring_sq *sq, struct io_uring_cq *cq)\<close>.\<close>

definition io_uring_unmap_rings :: "io_uring_sq \<Rightarrow> io_uring_cq \<Rightarrow> world \<Rightarrow> world" where
  "io_uring_unmap_rings sq cq w0 =
     (let w = sys_munmap (sq_ring_ptr sq) (sq_ring_sz sq) w0
      in if cq_ring_ptr cq \<noteq> 0 \<and> cq_ring_ptr cq \<noteq> sq_ring_ptr sq
         then sys_munmap (cq_ring_ptr cq) (cq_ring_sz cq) w
         else w)"

text \<open>The label \<^verbatim>\<open>err:\<close> of \<^verbatim>\<open>io_uring_mmap\<close>: unmap the rings and return \<^verbatim>\<open>ret\<close>.\<close>

definition io_uring_mmap_err ::
    "int \<Rightarrow> io_uring_sq \<Rightarrow> io_uring_cq \<Rightarrow> world \<Rightarrow> int \<times> io_uring_sq \<times> io_uring_cq \<times> world" where
  "io_uring_mmap_err ret sq cq w = (ret, sq, cq, io_uring_unmap_rings sq cq w)"

text \<open>
  \<^verbatim>\<open>static int io_uring_mmap(int fd, struct io_uring_params *p, struct io_uring_sq *sq,
  struct io_uring_cq *cq)\<close>. The two descriptors are passed in and returned updated, with
  the result and the new world. \<^verbatim>\<open>sizeof(unsigned)\<close> is 4; the lengths are computed in
  \<^verbatim>\<open>size_t\<close>; a pointer plus an offset is an addition of addresses.
\<close>

definition io_uring_mmap ::
    "uapi \<Rightarrow> int \<Rightarrow> io_uring_params \<Rightarrow> io_uring_sq \<Rightarrow> io_uring_cq \<Rightarrow> world
      \<Rightarrow> int \<times> io_uring_sq \<times> io_uring_cq \<times> world" where
  "io_uring_mmap k fd p sq0 cq0 w0 =
     (let single = (p_features p AND IORING_FEAT_SINGLE_MMAP k \<noteq> 0);
          sq = sq0\<lparr>sq_ring_sz := ucast (sqo_array (sq_off p)) + ucast (sq_entries p) * 4\<rparr>;
          cq = cq0\<lparr>cq_ring_sz :=
                     ucast (cqo_cqes (cq_off p)) + ucast (cq_entries p) * sizeof_cqe k\<rparr>;
          sq = (if single \<and> cq_ring_sz cq > sq_ring_sz sq
                then sq\<lparr>sq_ring_sz := cq_ring_sz cq\<rparr> else sq);
          cq = (if single then cq\<lparr>cq_ring_sz := sq_ring_sz sq\<rparr> else cq);
          (ptr, w) = sys_mmap (sq_ring_sz sq) fd (IORING_OFF_SQ_RING k) w0;
          sq = sq\<lparr>sq_ring_ptr := ptr\<rparr>
      in if sq_ring_ptr sq = MAP_FAILED then (- errno w, sq, cq, w)
         else
           let (cq_failed, cq, w) =
                 (if single then (False, cq\<lparr>cq_ring_ptr := sq_ring_ptr sq\<rparr>, w)
                  else
                    let (ptr, w) = sys_mmap (cq_ring_sz cq) fd (IORING_OFF_CQ_RING k) w
                    in if ptr = MAP_FAILED then (True, cq\<lparr>cq_ring_ptr := 0\<rparr>, w)
                       else (False, cq\<lparr>cq_ring_ptr := ptr\<rparr>, w))
           in if cq_failed then io_uring_mmap_err (- errno w) sq cq w
              else
                let sq = sq\<lparr>sq_khead := sq_ring_ptr sq + ucast (sqo_head (sq_off p)),
                             sq_ktail := sq_ring_ptr sq + ucast (sqo_tail (sq_off p)),
                             sq_kring_mask := sq_ring_ptr sq + ucast (sqo_ring_mask (sq_off p)),
                             sq_kring_entries :=
                               sq_ring_ptr sq + ucast (sqo_ring_entries (sq_off p)),
                             sq_kflags := sq_ring_ptr sq + ucast (sqo_flags (sq_off p)),
                             sq_kdropped := sq_ring_ptr sq + ucast (sqo_dropped (sq_off p)),
                             sq_array := sq_ring_ptr sq + ucast (sqo_array (sq_off p))\<rparr>;
                    size = ucast (sq_entries p) * sizeof_sqe k;
                    (ptr, w) = sys_mmap size fd (IORING_OFF_SQES k) w;
                    sq = sq\<lparr>sq_sqes := ptr\<rparr>
                in if sq_sqes sq = MAP_FAILED then io_uring_mmap_err (- errno w) sq cq w
                   else
                     let cq = cq\<lparr>cq_khead := cq_ring_ptr cq + ucast (cqo_head (cq_off p)),
                                  cq_ktail := cq_ring_ptr cq + ucast (cqo_tail (cq_off p)),
                                  cq_kring_mask :=
                                    cq_ring_ptr cq + ucast (cqo_ring_mask (cq_off p)),
                                  cq_kring_entries :=
                                    cq_ring_ptr cq + ucast (cqo_ring_entries (cq_off p)),
                                  cq_koverflow :=
                                    cq_ring_ptr cq + ucast (cqo_overflow (cq_off p)),
                                  cq_cqes := cq_ring_ptr cq + ucast (cqo_cqes (cq_off p))\<rparr>;
                         cq = (if cqo_flags (cq_off p) \<noteq> 0
                               then cq\<lparr>cq_kflags :=
                                         cq_ring_ptr cq + ucast (cqo_flags (cq_off p))\<rparr>
                               else cq)
                     in (0, sq, cq, w))"

text \<open>\<^verbatim>\<open>int io_uring_queue_mmap(int fd, struct io_uring_params *p, struct io_uring *ring)\<close>.\<close>

definition io_uring_queue_mmap ::
    "uapi \<Rightarrow> int \<Rightarrow> io_uring_params \<Rightarrow> io_uring \<Rightarrow> world \<Rightarrow> int \<times> io_uring \<times> world" where
  "io_uring_queue_mmap k fd p ring0 w0 =
     (let ring = zero_ring;
          (ret, sq', cq', w) = io_uring_mmap k fd p (ring_sq ring) (ring_cq ring) w0;
          ring = ring\<lparr>ring_sq := sq', ring_cq := cq'\<rparr>;
          ring = (if ret = 0 then ring\<lparr>ring_flags := p_flags p, ring_fd := fd\<rparr> else ring)
      in (ret, ring, w))"

section \<open>Ring handle lifecycle\<close>

text \<open>\<^verbatim>\<open>int io_uring_queue_init_params(unsigned entries, struct io_uring *ring,
  struct io_uring_params *p)\<close>: the params are passed in and returned as the kernel left
  them.\<close>

definition io_uring_queue_init_params ::
    "uapi \<Rightarrow> u32 \<Rightarrow> io_uring \<Rightarrow> io_uring_params \<Rightarrow> world
      \<Rightarrow> int \<times> io_uring \<times> io_uring_params \<times> world" where
  "io_uring_queue_init_params k entries ring0 p0 w0 =
     (let (fd, p, w) = sys_io_uring_setup entries p0 w0
      in if fd < 0 then (- errno w, ring0, p, w)
         else
           let (ret, ring, w) = io_uring_queue_mmap k fd p ring0 w
           in if ret \<noteq> 0 then (ret, ring, p, sys_close fd w)
              else (0, ring\<lparr>ring_features := p_features p\<rparr>, p, w))"

text \<open>\<^verbatim>\<open>int io_uring_queue_init(unsigned entries, struct io_uring *ring, unsigned flags)\<close>.\<close>

definition io_uring_queue_init ::
    "uapi \<Rightarrow> u32 \<Rightarrow> io_uring \<Rightarrow> u32 \<Rightarrow> world \<Rightarrow> int \<times> io_uring \<times> world" where
  "io_uring_queue_init k entries ring0 flags w0 =
     (let p = zero_params\<lparr>p_flags := flags\<rparr>;
          (ret, ring, p, w) = io_uring_queue_init_params k entries ring0 p w0
      in (ret, ring, w))"

text \<open>\<^verbatim>\<open>void io_uring_queue_exit(struct io_uring *ring)\<close>. \<^verbatim>\<open>*sq->kring_entries\<close> is read
  from the shared memory.\<close>

definition io_uring_queue_exit :: "uapi \<Rightarrow> io_uring \<Rightarrow> world \<Rightarrow> world" where
  "io_uring_queue_exit k ring w0 =
     (let sq = ring_sq ring;
          cq = ring_cq ring;
          w = sys_munmap (sq_sqes sq) (ucast (shared w0 (sq_kring_entries sq)) * sizeof_sqe k) w0;
          w = io_uring_unmap_rings sq cq w
      in sys_close (ring_fd ring) w)"

section \<open>Capability probe\<close>

text \<open>\<^verbatim>\<open>struct io_uring_probe *io_uring_get_probe_ring(struct io_uring *ring)\<close>. The result
  is the address of the probe, 0 for \<^verbatim>\<open>NULL\<close>.\<close>

definition io_uring_get_probe_ring :: "uapi \<Rightarrow> io_uring \<Rightarrow> world \<Rightarrow> addr \<times> world" where
  "io_uring_get_probe_ring k ring w0 =
     (let len = sizeof_probe k + 256 * sizeof_probe_op k;
          (probe, w) = sys_malloc len w0
      in if probe = 0 then (0, w)
         else
           let w = log_call (Call_memset probe len) w;
               (r, w) = io_uring_register_probe ring probe 256 w
           in if r \<ge> 0 then (probe, w)
              else (0, log_call (Call_free probe) w))"

text \<open>\<^verbatim>\<open>struct io_uring_probe *io_uring_get_probe(void)\<close>. The local \<^verbatim>\<open>ring\<close> is not
  initialised: \<open>ring0\<close> stands for whatever the stack holds.\<close>

definition io_uring_get_probe :: "uapi \<Rightarrow> io_uring \<Rightarrow> world \<Rightarrow> addr \<times> world" where
  "io_uring_get_probe k ring0 w0 =
     (let (r, ring, w) = io_uring_queue_init k 2 ring0 0 w0
      in if r < 0 then (0, w)
         else
           let (probe, w) = io_uring_get_probe_ring k ring w;
               w = io_uring_queue_exit k ring w
           in (probe, w))"

section \<open>Memory-lock estimate\<close>

definition KRING_SIZE :: u64 where
  "KRING_SIZE = 320"

text \<open>\<^verbatim>\<open>static size_t rings_size(unsigned entries, unsigned cq_entries, unsigned page_size)\<close>;
  \<open>None\<close> where \<^verbatim>\<open>npages\<close> divides by zero.\<close>

definition rings_size :: "uapi \<Rightarrow> u32 \<Rightarrow> u32 \<Rightarrow> u32 \<Rightarrow> u64 option" where
  "rings_size k entries cq_entries' page_size =
     (let cq_size = KRING_SIZE;
          cq_size = cq_size + ucast cq_entries' * sizeof_cqe k;
          cq_size = (cq_size + 63) AND NOT 63
      in case npages cq_size page_size of
           None \<Rightarrow> None
         | Some n \<Rightarrow>
             let pages = push_bit (unat n) (1 :: u64);
                 sq_size = sizeof_sqe k * ucast entries
             in case npages sq_size page_size of
                  None \<Rightarrow> None
                | Some m \<Rightarrow>
                    let pages = pages + push_bit (unat m) (1 :: u64)
                    in Some (pages * ucast page_size))"

definition KERN_MAX_ENTRIES :: u32 where
  "KERN_MAX_ENTRIES = 32768"

definition KERN_MAX_CQ_ENTRIES :: u32 where
  "KERN_MAX_CQ_ENTRIES = 2 * KERN_MAX_ENTRIES"

text \<open>
  \<^verbatim>\<open>ssize_t io_uring_mlock_size_params(unsigned entries, struct io_uring_params *p)\<close>. The
  result is the \<^verbatim>\<open>ssize_t\<close> returned, as an integer, or \<open>None\<close> where the C is undefined
  (a page size of zero). The local \<^verbatim>\<open>ring\<close> is not initialised: \<open>ring0\<close> stands for
  whatever the stack holds. \<^verbatim>\<open>sysconf(_SC_PAGESIZE)\<close> answers with the \<^verbatim>\<open>long\<close>
  \<open>pagesize_reply\<close>, which the call to \<^verbatim>\<open>rings_size\<close> converts to \<^verbatim>\<open>unsigned\<close>.
\<close>

definition io_uring_mlock_size_params ::
    "uapi \<Rightarrow> u32 \<Rightarrow> io_uring_params \<Rightarrow> io_uring \<Rightarrow> world \<Rightarrow> int option \<times> world" where
  "io_uring_mlock_size_params k entries0 p ring0 w0 =
     (let (ret, ring, lp, w) = io_uring_queue_init_params k entries0 ring0 zero_params w0
      in if ret < 0 then (Some ret, w)
         else
           let w = io_uring_queue_exit k ring w
           in if p_features lp AND IORING_FEAT_NATIVE_WORKERS k \<noteq> 0 then (Some 0, w)
              else if entries0 = 0 then (Some (- EINVAL), w)
              else if entries0 > KERN_MAX_ENTRIES \<and> p_flags p AND IORING_SETUP_CLAMP k = 0
                then (Some (- EINVAL), w)
              else
                let entries = (if entries0 > KERN_MAX_ENTRIES then KERN_MAX_ENTRIES else entries0);
                    entries = roundup_pow2 entries;
                    cq_checked =
                      (if p_flags p AND IORING_SETUP_CQSIZE k \<noteq> 0 then
                         if cq_entries p = 0 then None
                         else if cq_entries p > KERN_MAX_CQ_ENTRIES
                                 \<and> p_flags p AND IORING_SETUP_CLAMP k = 0 then None
                         else
                           let cq_entries' =
                                 (if cq_entries p > KERN_MAX_CQ_ENTRIES then KERN_MAX_CQ_ENTRIES
                                  else cq_entries p);
                               cq_entries' = roundup_pow2 cq_entries'
                           in if cq_entries' < entries then None else Some cq_entries'
                       else Some (2 * entries))
                in case cq_checked of
                     None \<Rightarrow> (Some (- EINVAL), w)
                   | Some cq_entries' \<Rightarrow>
                       let page_size = pagesize_reply w;
                           page_size = (if page_size < 0 then 4096 else page_size)
                       in (map_option sint (rings_size k entries cq_entries' (word_of_int page_size)),
                           w))"

text \<open>\<^verbatim>\<open>ssize_t io_uring_mlock_size(unsigned entries, unsigned flags)\<close>.\<close>

definition io_uring_mlock_size ::
    "uapi \<Rightarrow> u32 \<Rightarrow> u32 \<Rightarrow> io_uring \<Rightarrow> world \<Rightarrow> int option \<times> world" where
  "io_uring_mlock_size k entries flags ring0 w0 =
     io_uring_mlock_size_params k entries (zero_params\<lparr>p_flags := flags\<rparr>) ring0 w0"

section \<open>Auxiliary definitions for the proofs\<close>

text \<open>One conditional shift of \<^verbatim>\<open>__fls\<close>: if the top \<open>k\<close> bits of \<open>x\<close> are clear, shift
  \<open>x\<close> left by \<open>k\<close> and take \<open>k\<close> from the counter.\<close>

definition shift_step :: "nat \<Rightarrow> u32 \<times> int \<Rightarrow> u32 \<times> int" where
  "shift_step k = (\<lambda>(x, r). if x AND NOT (mask (32 - k)) = 0 then (push_bit k x, r - int k) else (x, r))"

section \<open>The byte total in the words of the specification\<close>

text \<open>Rounding up to a 64-byte boundary, and the number of whole pages that hold a number
  of bytes.\<close>

definition round_up_64 :: "nat \<Rightarrow> nat" where
  "round_up_64 n = (n + 63) div 64 * 64"

definition whole_pages :: "nat \<Rightarrow> nat \<Rightarrow> nat" where
  "whole_pages bytes ps = (bytes + ps - 1) div ps"

text \<open>The total as the specification words it: the completion-region bytes and the
  entry-array bytes, each converted to whole pages, summed and multiplied by the page size.
  The arguments are the entry-record size, the completion-record size, the submission depth,
  the completion depth and the page size.\<close>

definition spec_locked_bytes :: "nat \<Rightarrow> nat \<Rightarrow> nat \<Rightarrow> nat \<Rightarrow> nat \<Rightarrow> nat" where
  "spec_locked_bytes sqe cqe entries cqs ps =
     (whole_pages (round_up_64 (320 + cqs * cqe)) ps + whole_pages (entries * sqe) ps) * ps"

text \<open>The number of whole pages rounded up to a power of two, and the total with that
  page count.\<close>

definition pow2_pages :: "nat \<Rightarrow> nat \<Rightarrow> nat" where
  "pow2_pages bytes ps = 2 ^ floorlog 2 ((bytes - 1) div ps)"

definition pow2_locked_bytes :: "nat \<Rightarrow> nat \<Rightarrow> nat \<Rightarrow> nat \<Rightarrow> nat \<Rightarrow> nat" where
  "pow2_locked_bytes sqe cqe entries cqs ps =
     (pow2_pages (round_up_64 (320 + cqs * cqe)) ps + pow2_pages (entries * sqe) ps) * ps"

text \<open>The page size the estimate uses: 4096 when \<^verbatim>\<open>sysconf\<close> cannot tell (a negative
  answer).\<close>

definition page_size_of :: "int \<Rightarrow> nat" where
  "page_size_of answer = (if answer < 0 then 4096 else nat answer)"

section \<open>What the operating system promises\<close>

text \<open>A failing call sets \<^verbatim>\<open>errno\<close> to a positive code. A successful \<^verbatim>\<open>mmap\<close> returns an
  address that is neither \<^verbatim>\<open>NULL\<close> nor \<^verbatim>\<open>MAP_FAILED\<close>, and no two live mappings share a
  base address. A successful \<^verbatim>\<open>io_uring_setup\<close> returns a descriptor that is not
  negative.\<close>

definition mmap_reply_ok :: "int + addr \<Rightarrow> bool" where
  "mmap_reply_ok r = (case r of Inl e \<Rightarrow> 0 < e | Inr a \<Rightarrow> a \<noteq> 0 \<and> a \<noteq> MAP_FAILED)"

definition mapped_addrs :: "(int + addr) list \<Rightarrow> addr list" where
  "mapped_addrs rs = [a. Inr a \<leftarrow> rs]"

definition mmap_replies_ok :: "world \<Rightarrow> bool" where
  "mmap_replies_ok w =
     (list_all mmap_reply_ok (mmap_replies w) \<and> distinct (mapped_addrs (mmap_replies w)))"

definition setup_reply_ok :: "int + int \<times> io_uring_params \<Rightarrow> bool" where
  "setup_reply_ok r = (case r of Inl e \<Rightarrow> 0 < e | Inr (fd, p) \<Rightarrow> 0 \<le> fd)"

definition setup_replies_ok :: "world \<Rightarrow> bool" where
  "setup_replies_ok w = list_all setup_reply_ok (setup_replies w)"

section \<open>The region lengths in the words of the specification\<close>

text \<open>The submission-region length is the offset of the index array plus the granted
  submission entries times the size of an index slot (4 bytes); the completion-region length
  is the offset of the completion records plus the granted completion entries times the
  completion-record size; the entry-record array takes the granted submission entries times
  the entry-record size.\<close>

definition sq_region_len :: "io_uring_params \<Rightarrow> u64" where
  "sq_region_len p = ucast (sqo_array (sq_off p)) + ucast (sq_entries p) * 4"

definition cq_region_len :: "uapi \<Rightarrow> io_uring_params \<Rightarrow> u64" where
  "cq_region_len k p = ucast (cqo_cqes (cq_off p)) + ucast (cq_entries p) * sizeof_cqe k"

definition sqes_len :: "uapi \<Rightarrow> io_uring_params \<Rightarrow> u64" where
  "sqes_len k p = ucast (sq_entries p) * sizeof_sqe k"

definition single_mmap :: "uapi \<Rightarrow> io_uring_params \<Rightarrow> bool" where
  "single_mmap k p = (p_features p AND IORING_FEAT_SINGLE_MMAP k \<noteq> 0)"

section \<open>Reading the calls of a run\<close>

text \<open>The calls made between two worlds of one run, the mappings a list of calls
  established (base address and length of every \<^verbatim>\<open>mmap\<close> that succeeded) and the mappings
  it released (base address and length of every \<^verbatim>\<open>munmap\<close>).\<close>

definition new_calls :: "world \<Rightarrow> world \<Rightarrow> call list" where
  "new_calls w w' = drop (length (trace w)) (trace w')"

fun established :: "call list \<Rightarrow> (addr \<times> u64) list" where
  "established [] = []"
| "established (Call_mmap len fd off a # cs) =
     (if a = MAP_FAILED then established cs else (a, len) # established cs)"
| "established (c # cs) = established cs"

fun released :: "call list \<Rightarrow> (addr \<times> u64) list" where
  "released [] = []"
| "released (Call_munmap a len # cs) = (a, len) # released cs"
| "released (c # cs) = released cs"

text \<open>The pointers returned by the \<^verbatim>\<open>mmap\<close> calls of a list of calls.\<close>

fun mmap_results :: "call list \<Rightarrow> addr list" where
  "mmap_results [] = []"
| "mmap_results (Call_mmap len fd off a # cs) = a # mmap_results cs"
| "mmap_results (c # cs) = mmap_results cs"

text \<open>A call that maps ring metadata: an \<^verbatim>\<open>mmap\<close> at the submission-region or the
  completion-region identifier.\<close>

fun is_ring_mmap :: "uapi \<Rightarrow> call \<Rightarrow> bool" where
  "is_ring_mmap k (Call_mmap len fd off a) =
     (off = IORING_OFF_SQ_RING k \<or> off = IORING_OFF_CQ_RING k)"
| "is_ring_mmap k c = False"

text \<open>The teardown as the specification words it: the entry-record array, then the
  completion-side region if its base differs from the submission side's, then the
  submission-side region, then the descriptor.\<close>

definition spec_teardown_calls :: "uapi \<Rightarrow> io_uring \<Rightarrow> world \<Rightarrow> call list" where
  "spec_teardown_calls k ring w =
     [Call_munmap (sq_sqes (ring_sq ring))
        (ucast (shared w (sq_kring_entries (ring_sq ring))) * sizeof_sqe k)]
     @ (if cq_ring_ptr (ring_cq ring) \<noteq> sq_ring_ptr (ring_sq ring)
        then [Call_munmap (cq_ring_ptr (ring_cq ring)) (cq_ring_sz (ring_cq ring))] else [])
     @ [Call_munmap (sq_ring_ptr (ring_sq ring)) (sq_ring_sz (ring_sq ring))]
     @ [Call_close (ring_fd ring)]"

text \<open>The teardown with the submission-side region first, and the completion-side region
  after it, if its base is not \<^verbatim>\<open>NULL\<close> and differs from the submission side's.\<close>

definition teardown_calls :: "uapi \<Rightarrow> io_uring \<Rightarrow> world \<Rightarrow> call list" where
  "teardown_calls k ring w =
     [Call_munmap (sq_sqes (ring_sq ring))
        (ucast (shared w (sq_kring_entries (ring_sq ring))) * sizeof_sqe k)]
     @ [Call_munmap (sq_ring_ptr (ring_sq ring)) (sq_ring_sz (ring_sq ring))]
     @ (if cq_ring_ptr (ring_cq ring) \<noteq> 0
           \<and> cq_ring_ptr (ring_cq ring) \<noteq> sq_ring_ptr (ring_sq ring)
        then [Call_munmap (cq_ring_ptr (ring_cq ring)) (cq_ring_sz (ring_cq ring))] else [])
     @ [Call_close (ring_fd ring)]"

text \<open>The capability probe fails to allocate when \<^verbatim>\<open>malloc\<close> answers \<^verbatim>\<open>NULL\<close>, and its query
  fails when \<^verbatim>\<open>io_uring_register_probe\<close> answers with a negative result.\<close>

definition malloc_fails :: "world \<Rightarrow> bool" where
  "malloc_fails w = (case malloc_replies w of [] \<Rightarrow> True | a # rs \<Rightarrow> a = 0)"

definition register_fails :: "world \<Rightarrow> bool" where
  "register_fails w = (case register_replies w of [] \<Rightarrow> True | r # rs \<Rightarrow> r < 0)"

section \<open>Concrete worlds\<close>

text \<open>Resolved params as a kernel reports them for a depth of 8, and a world in which
  every call succeeds. They are used to evaluate the functions on concrete inputs.\<close>

definition params_8 :: io_uring_params where
  "params_8 =
     \<lparr>sq_entries = 8, cq_entries = 16, p_flags = 0, p_features = 0,
      sq_off = \<lparr>sqo_head = 0, sqo_tail = 64, sqo_ring_mask = 256, sqo_ring_entries = 264,
                sqo_flags = 276, sqo_dropped = 272, sqo_array = 576\<rparr>,
      cq_off = \<lparr>cqo_head = 128, cqo_tail = 192, cqo_ring_mask = 260, cqo_ring_entries = 268,
                cqo_overflow = 284, cqo_cqes = 320, cqo_flags = 280\<rparr>\<rparr>"

definition world_ok :: world where
  "world_ok =
     \<lparr>setup_replies = [Inr (3, params_8)],
      mmap_replies = [Inr 0x10000, Inr 0x20000, Inr 0x30000],
      malloc_replies = [0x5000], register_replies = [0], pagesize_reply = 4096,
      shared = (\<lambda>a. 8), errno = 0, mappings = [], open_fds = [], trace = []\<rparr>"

section \<open>The highest set bit\<close>

lemma and_not_mask_zero_iff: "(x :: 'a::len word) AND NOT (mask k) = 0 \<longleftrightarrow> unat x < 2 ^ k"
proof -
  have "x AND NOT (mask k) = 0 \<longleftrightarrow> x AND mask k = x"
    by (auto simp: bit_eq_iff bit_simps)
  also have "\<dots> \<longleftrightarrow> uint x < 2 ^ k" by (rule mask_eq_iff)
  also have "\<dots> \<longleftrightarrow> unat x < 2 ^ k"
    unfolding uint_nat by (metis of_nat_less_iff of_nat_numeral of_nat_power)
  finally show ?thesis .
qed

lemma fls_masks: "(0xffff0000 :: u32) = NOT (mask (32 - 16))" "(0xff000000 :: u32) = NOT (mask (32 - 8))"
  "(0xf0000000 :: u32) = NOT (mask (32 - 4))" "(0xc0000000 :: u32) = NOT (mask (32 - 2))"
  "(0x80000000 :: u32) = NOT (mask (32 - 1))"
  by (simp_all add: mask_eq_exp_minus_1)

lemma fls_as_steps:
  "x \<noteq> 0 \<Longrightarrow> fls x = snd (shift_step 1 (shift_step 2 (shift_step 4 (shift_step 8 (shift_step 16 (x, 32))))))"
  by (simp only: fls_def shift_step_def Let_def case_prod_beta fls_masks fst_conv snd_conv of_nat_numeral of_nat_1 if_False)

lemma shift_step_inv:
  fixes y :: u32
  assumes inv: "unat y * 2 ^ nat r = n * 2 ^ 32" "2 ^ (32 - 2 * k) \<le> unat y"
    and k: "0 < k" "k \<le> 16" "int k \<le> r"
    and st: "shift_step k (y, r) = (y', r')"
  shows "unat y' * 2 ^ nat r' = n * 2 ^ 32 \<and> 2 ^ (32 - k) \<le> unat y' \<and> r - int k \<le> r' \<and> r' \<le> r"
proof (cases "y AND NOT (mask (32 - k)) = 0")
  case True
  then have lt: "unat y < 2 ^ (32 - k)" by (simp add: and_not_mask_zero_iff)
  have y': "y' = push_bit k y" and r': "r' = r - int k"
    using st True by (simp_all add: shift_step_def)
  have "unat y * 2 ^ k < 2 ^ (32 - k) * 2 ^ k" using lt by simp
  also have "\<dots> = (2::nat) ^ 32" using k by (simp flip: power_add)
  finally have bound: "unat y * 2 ^ k < 2 ^ 32" .
  have u: "unat y' = unat y * 2 ^ k"
    unfolding y' unsigned_push_bit_eq push_bit_nat_def using bound by (simp add: take_bit_nat_eq_self)
  have "nat r = nat r' + k" using k r' by simp
  then have "unat y * 2 ^ nat r = unat y' * 2 ^ nat r'"
    by (simp add: u power_add mult_ac)
  moreover have "2 ^ (32 - k) \<le> unat y'"
  proof -
    have "(2::nat) ^ (32 - k) = 2 ^ (32 - 2 * k) * 2 ^ k" using k by (simp flip: power_add)
    also have "\<dots> \<le> unat y * 2 ^ k" using inv(2) by simp
    finally show ?thesis by (simp add: u)
  qed
  ultimately show ?thesis using inv r' by simp
next
  case False
  then have "\<not> unat y < 2 ^ (32 - k)" by (simp add: and_not_mask_zero_iff)
  moreover have "y' = y" "r' = r" using st False by (simp_all add: shift_step_def)
  ultimately show ?thesis using inv by simp
qed

lemma fls_floorlog: "fls x = int (floorlog 2 (unat x))"
proof (cases "x = 0")
  case True
  then show ?thesis by (simp add: fls_def floorlog_def)
next
  case False
  define n where "n = unat x"
  have n0: "0 < n" using False by (simp add: n_def unat_gt_0)
  obtain y1 r1 where s1: "shift_step 16 (x, 32) = (y1, r1)" by force
  obtain y2 r2 where s2: "shift_step 8 (y1, r1) = (y2, r2)" by force
  obtain y3 r3 where s3: "shift_step 4 (y2, r2) = (y3, r3)" by force
  obtain y4 r4 where s4: "shift_step 2 (y3, r3) = (y4, r4)" by force
  obtain y5 r5 where s5: "shift_step 1 (y4, r4) = (y5, r5)" by force
  have i0: "unat x * 2 ^ nat 32 = n * 2 ^ 32" "2 ^ (32 - 2 * 16) \<le> unat x"
    using n0 by (simp_all add: n_def)
  have i1: "unat y1 * 2 ^ nat r1 = n * 2 ^ 32 \<and> 2 ^ (32 - 16) \<le> unat y1 \<and> 32 - int 16 \<le> r1 \<and> r1 \<le> 32"
    using shift_step_inv [OF i0 _ _ _ s1] by simp
  have i2: "unat y2 * 2 ^ nat r2 = n * 2 ^ 32 \<and> 2 ^ (32 - 8) \<le> unat y2 \<and> r1 - int 8 \<le> r2 \<and> r2 \<le> r1"
    using shift_step_inv [of y1 r1 n 8 y2 r2] i1 s2 by simp
  have i3: "unat y3 * 2 ^ nat r3 = n * 2 ^ 32 \<and> 2 ^ (32 - 4) \<le> unat y3 \<and> r2 - int 4 \<le> r3 \<and> r3 \<le> r2"
    using shift_step_inv [of y2 r2 n 4 y3 r3] i1 i2 s3 by simp
  have i4: "unat y4 * 2 ^ nat r4 = n * 2 ^ 32 \<and> 2 ^ (32 - 2) \<le> unat y4 \<and> r3 - int 2 \<le> r4 \<and> r4 \<le> r3"
    using shift_step_inv [of y3 r3 n 2 y4 r4] i1 i2 i3 s4 by simp
  have i5: "unat y5 * 2 ^ nat r5 = n * 2 ^ 32 \<and> 2 ^ (32 - 1) \<le> unat y5 \<and> r4 - int 1 \<le> r5 \<and> r5 \<le> r4"
    using shift_step_inv [of y4 r4 n 1 y5 r5] i1 i2 i3 i4 s5 by simp
  have r5: "fls x = r5" using False s1 s2 s3 s4 s5 by (simp add: fls_as_steps)
  have r5_pos: "1 \<le> r5" "r5 \<le> 32" using i1 i2 i3 i4 i5 by simp_all
  have y5_hi: "unat y5 < 2 ^ 32" using unsigned_less [of y5] by simp
  have y5_lo: "2 ^ 31 \<le> unat y5" using i5 by simp
  have eq: "unat y5 * 2 ^ nat r5 = n * 2 ^ 32" using i5 by simp
  have "floorlog 2 (unat y5 * 2 ^ nat r5) = floorlog 2 (n * 2 ^ 32)" using eq by (rule arg_cong)
  moreover have "floorlog 2 (n * 2 ^ 32) = floorlog 2 n + 32" using n0 by (intro floorlog_power) simp_all
  moreover have "floorlog 2 (unat y5 * 2 ^ nat r5) = floorlog 2 (unat y5) + nat r5"
    using y5_lo by (intro floorlog_power) (simp_all add: less_le_trans [of 0 "2 ^ 31"])
  moreover have "floorlog 2 (unat y5) = 32"
  proof (rule antisym)
    show "floorlog 2 (unat y5) \<le> 32" using y5_hi by (simp add: floorlog_le_iff)
    show "32 \<le> floorlog 2 (unat y5)" using y5_lo by (intro floorlog_geI) simp_all
  qed
  ultimately have "32 + nat r5 = floorlog 2 n + 32" by (simp only:)
  then show ?thesis using r5 r5_pos by (simp add: n_def)
qed


section \<open>Rounding up to a power of two\<close>

lemma floorlog_u32_le: "floorlog 2 (unat (y :: u32)) \<le> 32"
  using unsigned_less [of y, where 'a = nat] by (simp add: floorlog_le_iff)

lemma roundup_pow2_unat:
  "unat (roundup_pow2 d) =
     (if floorlog 2 (unat (d - 1)) < 32 then 2 ^ floorlog 2 (unat (d - 1)) else 0)"
proof -
  define r where "r = floorlog 2 (unat (d - 1))"
  have r32: "r \<le> 32" unfolding r_def by (rule floorlog_u32_le)
  have "unat (push_bit r (1 :: u64)) = 2 ^ r"
    unfolding unsigned_push_bit_eq using r32 by simp
  then have p: "unat ((2 :: u64) ^ r) = 2 ^ r" by simp
  have "unat (roundup_pow2 d) = 2 ^ r mod 2 ^ 32"
    by (simp add: roundup_pow2_def fls_floorlog flip: r_def) (simp add: unsigned_ucast_eq p take_bit_eq_mod)
  also have "\<dots> = (if r < 32 then 2 ^ r else 0)"
  proof (cases "r < 32")
    case True
    then have "(2::nat) ^ r < 2 ^ 32" by (intro power_strict_increasing) simp_all
    then show ?thesis using True by simp
  next
    case False
    then have "r = 32" using r32 by simp
    then show ?thesis by simp
  qed
  finally show ?thesis by (simp add: r_def)
qed

lemma floorlog_pow2_minus1: "floorlog 2 (2 ^ r - 1) = r"
proof (cases r)
  case 0
  then show ?thesis by (simp add: floorlog_eq_zero_iff)
next
  case (Suc m)
  have "(2::nat) ^ r - 1 < 2 ^ r" by simp
  then have "floorlog 2 (2 ^ r - 1) \<le> r" by (simp add: floorlog_le_iff)
  moreover have "(2::nat) ^ (r - 1) \<le> 2 ^ r - 1" using Suc by simp
  then have "r \<le> floorlog 2 (2 ^ r - 1)" by (intro floorlog_geI) simp_all
  ultimately show ?thesis by simp
qed

lemma roundup_pow2_idem: "roundup_pow2 (roundup_pow2 n) = roundup_pow2 n"
proof -
  define r where "r = floorlog 2 (unat (n - 1))"
  have r32: "r \<le> 32" unfolding r_def by (rule floorlog_u32_le)
  define v where "v = roundup_pow2 n"
  have "floorlog 2 (unat (v - 1)) = r"
  proof (cases "r < 32")
    case True
    then have uv: "unat v = 2 ^ r" by (simp add: v_def roundup_pow2_unat r_def)
    then have "1 \<le> v" by (simp add: word_le_nat_alt)
    then have "unat (v - 1) = 2 ^ r - 1" by (simp add: unat_sub uv)
    then show ?thesis by (simp only: floorlog_pow2_minus1)
  next
    case False
    then have "unat v = 0" by (simp add: v_def roundup_pow2_unat r_def)
    then have "v = 0" by (simp add: unat_eq_0)
    then have "unat (v - 1) = 2 ^ 32 - 1"
      by (simp add: unsigned_minus_1_eq_mask mask_eq_exp_minus_1)
    then have "floorlog 2 (unat (v - 1)) = 32" by (simp only: floorlog_pow2_minus1)
    then show ?thesis using False r32 by simp
  qed
  then have "unat (roundup_pow2 v) = unat v"
    by (simp add: roundup_pow2_unat [of v]) (simp add: v_def roundup_pow2_unat r_def)
  then show ?thesis by (simp add: v_def word_unat_eq_iff)
qed

lemma roundup_pow2_ge:
  assumes "1 \<le> unat n" "unat n \<le> 2 ^ 31"
  shows "unat (roundup_pow2 n) = 2 ^ floorlog 2 (unat n - 1)" and "unat n \<le> unat (roundup_pow2 n)"
    and "floorlog 2 (unat n - 1) \<le> 31"
proof -
  have "1 \<le> n" using assms by (simp add: word_le_nat_alt)
  then have m: "unat (n - 1) = unat n - 1" by (simp add: unat_sub)
  have "unat n - 1 < 2 ^ 31" using assms by simp
  then have "floorlog 2 (unat n - 1) \<le> 31" by (simp add: floorlog_le_iff)
  then show r: "floorlog 2 (unat n - 1) \<le> 31" .
  then show u: "unat (roundup_pow2 n) = 2 ^ floorlog 2 (unat n - 1)"
    by (simp add: roundup_pow2_unat m)
  have "unat n - 1 < 2 ^ floorlog 2 (unat n - 1)"
    using floorlog_leD [of 2 "unat n - 1" "floorlog 2 (unat n - 1)"] by simp
  then show "unat n \<le> unat (roundup_pow2 n)" using assms u by simp
qed

text \<open>
  Claim C7 as stated, for every 32-bit \<open>n \<ge> 1\<close>, fails above \<open>2 ^ 31\<close>: the shift
  \<^verbatim>\<open>1UL << 32\<close> is truncated to 32 bits, so \<^verbatim>\<open>roundup_pow2(0x80000001)\<close> is 0, which is
  below its argument.
\<close>

theorem roundup_pow2_above_half_range:
  "1 \<le> (0x80000001 :: u32) \<and> roundup_pow2 0x80000001 = 0
   \<and> \<not> (0x80000001 :: u32) \<le> roundup_pow2 0x80000001"
  by code_simp

text \<open>
  Claim C7, amended: for every 32-bit \<open>n\<close> with \<open>1 \<le> n \<le> 2 ^ 31\<close>, \<^verbatim>\<open>roundup_pow2(n)\<close> is a
  power of two greater than or equal to \<open>n\<close>; and for every 32-bit \<open>n\<close>,
  \<^verbatim>\<open>roundup_pow2(roundup_pow2(n)) == roundup_pow2(n)\<close>.
\<close>

theorem roundup_pow2_power_of_two:
  "(1 \<le> unat n \<and> unat n \<le> 2 ^ 31 \<longrightarrow>
      (\<exists>k. unat (roundup_pow2 n) = 2 ^ k) \<and> unat n \<le> unat (roundup_pow2 n))
   \<and> roundup_pow2 (roundup_pow2 n) = roundup_pow2 n"
  using roundup_pow2_ge [of n] roundup_pow2_idem [of n] by blast

theorem roundup_pow2_power_of_two_witness:
  "(1 \<le> unat (5 :: u32) \<and> unat (5 :: u32) \<le> 2 ^ 31)
   \<and> (\<exists>k. unat (roundup_pow2 5) = 2 ^ k) \<and> unat (5 :: u32) \<le> unat (roundup_pow2 5)
   \<and> roundup_pow2 (roundup_pow2 5) = roundup_pow2 5"
proof -
  have h: "1 \<le> unat (5 :: u32) \<and> unat (5 :: u32) \<le> 2 ^ 31" by simp
  show ?thesis using roundup_pow2_power_of_two [of 5] h by blast
qed

section \<open>Page counts and the size of the rings\<close>

lemma and_not_mask_push_drop: "(y :: 'a::len word) AND NOT (mask n) = push_bit n (drop_bit n y)"
  by (auto simp: bit_eq_iff bit_simps)

lemma unat_and_not_63: "unat ((y :: u64) AND NOT 63) = unat y div 64 * 64"
proof -
  have "(63 :: u64) = mask 6" by (simp add: mask_eq_exp_minus_1)
  then have "y AND NOT 63 = push_bit 6 (drop_bit 6 y)" by (simp only: and_not_mask_push_drop)
  then have "unat (y AND NOT 63) = take_bit 64 (push_bit 6 (unat (drop_bit 6 y)))"
    by (simp only: unsigned_push_bit_eq) simp
  also have "unat (drop_bit 6 y) = unat y div 64"
    by (simp only: unat_drop_bit_eq) (simp add: drop_bit_eq_div)
  also have "take_bit 64 (push_bit 6 (unat y div 64)) = unat y div 64 * 64"
  proof -
    have "unat y div 64 * 64 \<le> unat y" by simp
    also have "unat y < 2 ^ 64" using unsigned_less [of y, where 'a = nat] by simp
    finally show ?thesis by (simp add: push_bit_nat_def take_bit_nat_eq_self)
  qed
  finally show ?thesis .
qed

lemma npages_nat:
  assumes ps: "page_size \<noteq> 0" and sz: "1 \<le> unat size0"
    and q: "(unat size0 - 1) div unat page_size < 2 ^ 32"
  shows "npages size0 page_size = Some (of_nat (floorlog 2 ((unat size0 - 1) div unat page_size)))"
proof -
  have "1 \<le> size0" using sz by (simp add: word_le_nat_alt)
  then have m: "unat (size0 - 1) = unat size0 - 1" by (simp add: unat_sub)
  have u: "unat (ucast page_size :: u64) = unat page_size"
    by (simp add: unsigned_ucast_eq take_bit_nat_eq_self unsigned_less [of page_size, where 'a = nat, simplified] less_trans [OF unsigned_less [of page_size, where 'a = nat]])
  have d: "unat ((size0 - 1) div ucast page_size) = (unat size0 - 1) div unat page_size"
    by (simp add: unat_div m u)
  have "unat (ucast ((size0 - 1) div ucast page_size) :: u32) = (unat size0 - 1) div unat page_size"
    using q by (simp add: unsigned_ucast_eq d take_bit_nat_eq_self)
  then show ?thesis using ps by (simp add: npages_def fls_floorlog Let_def)
qed


lemma unat_ucast_u32_u64: "unat (ucast (x :: u32) :: u64) = unat x"
proof -
  have "unat x < 2 ^ 32" using unsigned_less [of x, where 'a = nat] by simp
  then have "unat x < 2 ^ 64" by simp
  then show ?thesis by (simp add: unsigned_ucast_eq take_bit_nat_eq_self)
qed

lemma pow2_floorlog_le: "2 ^ floorlog 2 q \<le> max 1 (2 * q)"
proof (cases "q = 0")
  case True
  then show ?thesis by (simp add: floorlog_def)
next
  case False
  then have "2 ^ (floorlog 2 q - 1) \<le> q" using floorlog_bounds [of q 2] by simp
  moreover have "floorlog 2 q \<noteq> 0" using False by (simp add: floorlog_eq_zero_iff)
  then have "(2::nat) ^ floorlog 2 q = 2 * 2 ^ (floorlog 2 q - 1)"
    by (cases "floorlog 2 q") simp_all
  ultimately show ?thesis by simp
qed

lemma pow2_pages_bytes: "pow2_pages b P * P \<le> 2 * b + P"
proof -
  define q where "q = (b - 1) div P"
  have "(b - 1) div P * P \<le> b - 1" by simp
  then have s3: "q * P \<le> b" unfolding q_def by linarith
  have s1: "2 ^ floorlog 2 q * P \<le> max 1 (2 * q) * P"
    by (rule mult_le_mono1) (rule pow2_floorlog_le)
  have s2: "max 1 (2 * q) * P \<le> 2 * (q * P) + P" by (cases "q = 0") simp_all
  have "pow2_pages b P * P = 2 ^ floorlog 2 q * P" by (simp add: pow2_pages_def q_def)
  then show ?thesis using s1 s2 s3 by linarith
qed

lemma unat_pow2_u64: "r \<le> 32 \<Longrightarrow> unat (push_bit (unat (of_nat r :: u64)) (1 :: u64)) = 2 ^ r"
proof -
  assume r: "r \<le> 32"
  then have "r < 2 ^ 64" by (rule le_less_trans) simp
  then have "unat (of_nat r :: u64) = r" by (simp add: unat_of_nat)
  moreover have "unat (push_bit r (1 :: u64)) = 2 ^ r"
    unfolding unsigned_push_bit_eq using r by simp
  ultimately show ?thesis by simp
qed

lemma floorlog_le_32: "q < 2 ^ 32 \<Longrightarrow> floorlog 2 q \<le> 32"
  by (simp add: floorlog_le_iff)

lemma sint_small_gen:
  fixes v :: "'a::len word"
  assumes "unat v < 2 ^ (LENGTH('a) - 1)"
  shows "sint v = int (unat v)"
proof -
  have "int (unat v) < int (2 ^ (LENGTH('a) - 1))" using assms by (simp only: of_nat_less_iff)
  then have u: "uint v < 2 ^ (LENGTH('a) - 1)" by simp
  have "- (2 ^ (LENGTH('a) - 1)) \<le> (0 :: int)" by simp
  also have "0 \<le> uint v" by simp
  finally have l: "- (2 ^ (LENGTH('a) - 1)) \<le> uint v" .
  have "signed_take_bit (LENGTH('a) - 1) (uint v) = uint v"
    using l u by (rule signed_take_bit_int_eq_self)
  then show ?thesis by (simp add: sint_uint)
qed

lemma sint_small: "unat (v :: u64) < 2 ^ 63 \<Longrightarrow> sint v = int (unat v)"
  using sint_small_gen [of v] by simp

lemma rings_size_nat:
  fixes k :: uapi and e c ps :: u32
  defines "P \<equiv> unat ps"
    and "cqb \<equiv> round_up_64 (320 + unat c * unat (sizeof_cqe k))"
    and "sqb \<equiv> unat e * unat (sizeof_sqe k)"
  assumes ps: "ps \<noteq> 0" and cq: "cqb < 2 ^ 32" and sq1: "1 \<le> sqb" and sq2: "sqb < 2 ^ 32"
  shows "\<exists>v. rings_size k e c ps = Some v
           \<and> unat v = (pow2_pages cqb P + pow2_pages sqb P) * P \<and> sint v = int (unat v)"
proof -
  have P32: "P < 2 ^ 32" unfolding P_def using unsigned_less [of ps, where 'a = nat] by simp
  have P0: "0 < P" unfolding P_def using ps by (simp add: unat_gt_0)
  define raw where "raw = 320 + unat c * unat (sizeof_cqe k)"
  have raw_le: "raw + 63 < 2 ^ 32 + 64"
  proof -
    have "(raw + 63) div 64 * 64 + (raw + 63) mod 64 = raw + 63" by simp
    moreover have "(raw + 63) mod 64 < 64" by simp
    ultimately show ?thesis using cq unfolding cqb_def round_up_64_def raw_def by linarith
  qed
  have m1: "unat (ucast c * sizeof_cqe k :: u64) = unat c * unat (sizeof_cqe k)"
  proof -
    have "unat c * unat (sizeof_cqe k) < 2 ^ 64" using raw_le unfolding raw_def by simp
    then show ?thesis
      using unat_mult_lem [of "ucast c :: u64" "sizeof_cqe k"] by (simp add: unat_ucast_u32_u64)
  qed
  have a1: "unat (KRING_SIZE + ucast c * sizeof_cqe k) = raw"
  proof -
    have "unat KRING_SIZE + unat (ucast c * sizeof_cqe k :: u64) < 2 ^ 64"
      using raw_le unfolding raw_def by (simp add: m1 KRING_SIZE_def)
    then show ?thesis
      using unat_add_lem [of KRING_SIZE "ucast c * sizeof_cqe k"]
      by (simp add: m1 KRING_SIZE_def raw_def)
  qed
  have a2: "unat (KRING_SIZE + ucast c * sizeof_cqe k + 63) = raw + 63"
  proof -
    have "unat (KRING_SIZE + ucast c * sizeof_cqe k) + unat (63 :: u64) < 2 ^ 64"
      using raw_le by (simp add: a1)
    then show ?thesis
      using unat_add_lem [of "KRING_SIZE + ucast c * sizeof_cqe k" 63] by (simp add: a1)
  qed
  define cq_size where "cq_size = (KRING_SIZE + ucast c * sizeof_cqe k + 63) AND NOT 63"
  have cqs: "unat cq_size = cqb"
    by (simp only: cq_size_def unat_and_not_63 a2) (simp add: cqb_def round_up_64_def raw_def)
  have cqb1: "1 \<le> cqb" unfolding cqb_def round_up_64_def by simp
  define r1 where "r1 = floorlog 2 ((cqb - 1) div P)"
  have q1: "(cqb - 1) div P < 2 ^ 32"
    using cq by (meson div_le_dividend diff_le_self le_less_trans)
  have n1: "npages cq_size ps = Some (of_nat r1)"
    using npages_nat [of ps cq_size] ps cqb1 q1 by (simp add: cqs P_def r1_def)
  have r1: "r1 \<le> 32" unfolding r1_def using q1 by (rule floorlog_le_32)
  define sq_size where "sq_size = sizeof_sqe k * ucast e"
  have sqs: "unat sq_size = sqb"
  proof -
    have "unat (sizeof_sqe k) * unat e < 2 ^ 64" using sq2 by (simp add: sqb_def mult.commute)
    then show ?thesis
      using unat_mult_lem [of "sizeof_sqe k" "ucast e :: u64"]
      by (simp add: unat_ucast_u32_u64 sq_size_def sqb_def mult.commute)
  qed
  define r2 where "r2 = floorlog 2 ((sqb - 1) div P)"
  have q2: "(sqb - 1) div P < 2 ^ 32"
    using sq2 by (meson div_le_dividend diff_le_self le_less_trans)
  have n2: "npages sq_size ps = Some (of_nat r2)"
    using npages_nat [of ps sq_size] ps sq1 q2 by (simp add: sqs P_def r2_def)
  have r2: "r2 \<le> 32" unfolding r2_def using q2 by (rule floorlog_le_32)
  define pages where "pages = push_bit (unat (of_nat r1 :: u64)) (1 :: u64) + push_bit (unat (of_nat r2 :: u64)) 1"
  have b1: "2 ^ r1 * P \<le> 2 * cqb + P" using pow2_pages_bytes [of cqb P] by (simp add: pow2_pages_def r1_def)
  have b2: "2 ^ r2 * P \<le> 2 * sqb + P" using pow2_pages_bytes [of sqb P] by (simp add: pow2_pages_def r2_def)
  have tot: "(2 ^ r1 + 2 ^ r2) * P < 2 ^ 35"
    using b1 b2 cq sq2 P32 by (simp add: add_mult_distrib)
  have p32a: "(2::nat) ^ r1 \<le> 2 ^ 32" using r1 by (intro power_increasing) simp_all
  have p32b: "(2::nat) ^ r2 \<le> 2 ^ 32" using r2 by (intro power_increasing) simp_all
  have pg: "unat pages = 2 ^ r1 + 2 ^ r2"
  proof -
    have "unat (push_bit (unat (of_nat r1 :: u64)) (1 :: u64)) + unat (push_bit (unat (of_nat r2 :: u64)) (1 :: u64)) = 2 ^ r1 + 2 ^ r2"
      by (simp only: unat_pow2_u64 [OF r1] unat_pow2_u64 [OF r2])
    also have "\<dots> < 2 ^ 64" using p32a p32b by simp
    finally have "unat (push_bit (unat (of_nat r1 :: u64)) (1 :: u64)) + unat (push_bit (unat (of_nat r2 :: u64)) (1 :: u64)) < 2 ^ 64" .
    then show ?thesis
      unfolding pages_def
      using unat_add_lem [of "push_bit (unat (of_nat r1 :: u64)) (1 :: u64)" "push_bit (unat (of_nat r2 :: u64)) (1 :: u64)"]
      by (simp only: unat_pow2_u64 [OF r1] unat_pow2_u64 [OF r2]) simp
  qed
  define v where "v = pages * ucast ps"
  have uv: "unat v = (2 ^ r1 + 2 ^ r2) * P"
  proof -
    have "unat pages * unat (ucast ps :: u64) < 2 ^ 64"
      using tot by (simp add: pg unat_ucast_u32_u64 P_def)
    then show ?thesis
      unfolding v_def using unat_mult_lem [of pages "ucast ps :: u64"]
      by (simp add: pg unat_ucast_u32_u64 P_def)
  qed
  have "rings_size k e c ps = Some v"
    unfolding rings_size_def Let_def n1 [unfolded cq_size_def] n2 [unfolded sq_size_def]
      option.case v_def pages_def by (rule refl)
  moreover have "unat v = (pow2_pages cqb P + pow2_pages sqb P) * P"
    by (simp add: uv pow2_pages_def r1_def r2_def)
  moreover have "sint v = int (unat v)" using tot by (intro sint_small) (simp add: uv)
  ultimately show ?thesis by blast
qed

text \<open>\<open>pow2_pages\<close> is the least power of two that is at least the number of whole
  pages.\<close>

lemma pow2_pages_least:
  assumes "0 < b" "0 < P"
  shows "whole_pages b P \<le> pow2_pages b P"
    and "whole_pages b P \<le> 2 ^ j \<Longrightarrow> pow2_pages b P \<le> 2 ^ j"
proof -
  define q where "q = (b - 1) div P"
  have "b + P - 1 = (b - 1) + P" using assms by simp
  then have "(b + P - 1) div P = ((b - 1) + P) div P" by (rule arg_cong)
  also have "\<dots> = (b - 1) div P + 1" using assms by (intro div_add_self2) simp
  finally have wp: "whole_pages b P = q + 1" by (simp only: whole_pages_def q_def)
  have "q < 2 ^ floorlog 2 q" using floorlog_leD [of 2 q "floorlog 2 q"] by simp
  then show "whole_pages b P \<le> pow2_pages b P" by (simp add: wp pow2_pages_def q_def)
  assume "whole_pages b P \<le> 2 ^ j"
  then have "q < 2 ^ j" by (simp add: wp)
  then have "floorlog 2 q \<le> j" by (simp add: floorlog_le_iff)
  then show "pow2_pages b P \<le> 2 ^ j"
    by (simp add: pow2_pages_def q_def power_increasing)
qed

section \<open>What the calls leave unchanged\<close>

lemma log_call_frame [simp]:
  "pagesize_reply (log_call c w) = pagesize_reply w"
  "shared (log_call c w) = shared w"
  "errno (log_call c w) = errno w"
  "mappings (log_call c w) = mappings w"
  "open_fds (log_call c w) = open_fds w"
  "mmap_replies (log_call c w) = mmap_replies w"
  "setup_replies (log_call c w) = setup_replies w"
  "malloc_replies (log_call c w) = malloc_replies w"
  "register_replies (log_call c w) = register_replies w"
  "trace (log_call c w) = trace w @ [c]"
  by (simp_all add: log_call_def)

lemma sys_mmap_frame [simp]:
  "pagesize_reply (snd (sys_mmap len fd off w)) = pagesize_reply w"
  "shared (snd (sys_mmap len fd off w)) = shared w"
  by (simp_all add: sys_mmap_def split: list.splits sum.splits)

lemma sys_munmap_frame [simp]:
  "pagesize_reply (sys_munmap ptr len w) = pagesize_reply w"
  "shared (sys_munmap ptr len w) = shared w"
  "errno (sys_munmap ptr len w) = errno w"
  by (simp_all add: sys_munmap_def)

lemma sys_close_frame [simp]:
  "pagesize_reply (sys_close fd w) = pagesize_reply w"
  "shared (sys_close fd w) = shared w"
  "errno (sys_close fd w) = errno w"
  "mappings (sys_close fd w) = mappings w"
  by (simp_all add: sys_close_def)

lemma sys_io_uring_setup_frame [simp]:
  "pagesize_reply (snd (snd (sys_io_uring_setup entries p w))) = pagesize_reply w"
  "shared (snd (snd (sys_io_uring_setup entries p w))) = shared w"
  by (simp_all add: sys_io_uring_setup_def split: list.splits sum.splits prod.splits)

lemma io_uring_unmap_rings_frame [simp]:
  "pagesize_reply (io_uring_unmap_rings sq cq w) = pagesize_reply w"
  "shared (io_uring_unmap_rings sq cq w) = shared w"
  "errno (io_uring_unmap_rings sq cq w) = errno w"
  by (simp_all add: io_uring_unmap_rings_def Let_def)

lemma io_uring_mmap_frame [simp]:
  "pagesize_reply (snd (snd (snd (io_uring_mmap k fd p sq cq w)))) = pagesize_reply w"
  by (simp add: io_uring_mmap_def io_uring_mmap_err_def Let_def split_beta)

lemma io_uring_queue_mmap_frame [simp]:
  "pagesize_reply (snd (snd (io_uring_queue_mmap k fd p ring w))) = pagesize_reply w"
  by (simp add: io_uring_queue_mmap_def Let_def split_beta)

lemma io_uring_queue_init_params_frame [simp]:
  "pagesize_reply (snd (snd (snd (io_uring_queue_init_params k entries ring p w)))) = pagesize_reply w"
  by (simp add: io_uring_queue_init_params_def Let_def split_beta)

lemma io_uring_queue_exit_frame [simp]:
  "pagesize_reply (io_uring_queue_exit k ring w) = pagesize_reply w"
  by (simp add: io_uring_queue_exit_def Let_def)

lemma sys_mmap_keeps [simp]:
  "open_fds (snd (sys_mmap len fd off w)) = open_fds w"
  "malloc_replies (snd (sys_mmap len fd off w)) = malloc_replies w"
  "register_replies (snd (sys_mmap len fd off w)) = register_replies w"
  "setup_replies (snd (sys_mmap len fd off w)) = setup_replies w"
  by (simp_all add: sys_mmap_def split: list.splits sum.splits)

lemma sys_munmap_keeps [simp]:
  "open_fds (sys_munmap ptr len w) = open_fds w"
  "malloc_replies (sys_munmap ptr len w) = malloc_replies w"
  "register_replies (sys_munmap ptr len w) = register_replies w"
  "setup_replies (sys_munmap ptr len w) = setup_replies w"
  "mmap_replies (sys_munmap ptr len w) = mmap_replies w"
  "trace (sys_munmap ptr len w) = trace w @ [Call_munmap ptr len]"
  by (simp_all add: sys_munmap_def)

lemma sys_close_keeps [simp]:
  "open_fds (sys_close fd w) = remove1 fd (open_fds w)"
  "malloc_replies (sys_close fd w) = malloc_replies w"
  "register_replies (sys_close fd w) = register_replies w"
  "setup_replies (sys_close fd w) = setup_replies w"
  "mmap_replies (sys_close fd w) = mmap_replies w"
  "trace (sys_close fd w) = trace w @ [Call_close fd]"
  by (simp_all add: sys_close_def)

lemma io_uring_unmap_rings_keeps [simp]:
  "open_fds (io_uring_unmap_rings sq cq w) = open_fds w"
  "malloc_replies (io_uring_unmap_rings sq cq w) = malloc_replies w"
  "register_replies (io_uring_unmap_rings sq cq w) = register_replies w"
  "setup_replies (io_uring_unmap_rings sq cq w) = setup_replies w"
  "mmap_replies (io_uring_unmap_rings sq cq w) = mmap_replies w"
  by (simp_all add: io_uring_unmap_rings_def Let_def)

lemma io_uring_mmap_keeps [simp]:
  "open_fds (snd (snd (snd (io_uring_mmap k fd p sq cq w)))) = open_fds w"
  "malloc_replies (snd (snd (snd (io_uring_mmap k fd p sq cq w)))) = malloc_replies w"
  "register_replies (snd (snd (snd (io_uring_mmap k fd p sq cq w)))) = register_replies w"
  "setup_replies (snd (snd (snd (io_uring_mmap k fd p sq cq w)))) = setup_replies w"
  by (simp_all add: io_uring_mmap_def io_uring_mmap_err_def Let_def split_beta)

section \<open>The memory-lock estimate\<close>

text \<open>Once the throwaway ring is created and reports no native workers, the result is
  decided by the depth checks alone.\<close>

lemma mlock_size_params_after_ring:
  assumes init: "io_uring_queue_init_params k entries ring0 zero_params w = (ret, ring, lp, w1)"
    and created: "0 \<le> ret"
    and no_native: "p_features lp AND IORING_FEAT_NATIVE_WORKERS k = 0"
  shows "fst (io_uring_mlock_size_params k entries p ring0 w) =
     (if entries = 0 then Some (- EINVAL)
      else if KERN_MAX_ENTRIES < entries \<and> p_flags p AND IORING_SETUP_CLAMP k = 0
        then Some (- EINVAL)
      else if p_flags p AND IORING_SETUP_CQSIZE k \<noteq> 0 \<and> cq_entries p = 0 then Some (- EINVAL)
      else if p_flags p AND IORING_SETUP_CQSIZE k \<noteq> 0 \<and> KERN_MAX_CQ_ENTRIES < cq_entries p
              \<and> p_flags p AND IORING_SETUP_CLAMP k = 0
        then Some (- EINVAL)
      else if p_flags p AND IORING_SETUP_CQSIZE k \<noteq> 0
              \<and> roundup_pow2 (min (cq_entries p) KERN_MAX_CQ_ENTRIES)
                  < roundup_pow2 (min entries KERN_MAX_ENTRIES)
        then Some (- EINVAL)
      else map_option sint
             (rings_size k (roundup_pow2 (min entries KERN_MAX_ENTRIES))
                (if p_flags p AND IORING_SETUP_CQSIZE k \<noteq> 0
                 then roundup_pow2 (min (cq_entries p) KERN_MAX_CQ_ENTRIES)
                 else 2 * roundup_pow2 (min entries KERN_MAX_ENTRIES))
                (word_of_int (if pagesize_reply w < 0 then 4096 else pagesize_reply w))))"
proof -
  have ps: "pagesize_reply (io_uring_queue_exit k ring w1) = pagesize_reply w"
    using io_uring_queue_init_params_frame [of k entries ring0 zero_params w] by (simp add: init)
  have m1: "(if KERN_MAX_ENTRIES < entries then KERN_MAX_ENTRIES else entries)
              = min entries KERN_MAX_ENTRIES"
    by (auto simp: min_def)
  have m2: "(if KERN_MAX_CQ_ENTRIES < cq_entries p then KERN_MAX_CQ_ENTRIES else cq_entries p)
              = min (cq_entries p) KERN_MAX_CQ_ENTRIES"
    by (auto simp: min_def)
  have neg: "\<not> ret < 0" using created by simp
  show ?thesis
    unfolding io_uring_mlock_size_params_def init prod.case Let_def m1 m2 ps fst_conv
    apply (simp only: neg no_native if_False if_True fst_conv simp_thms)
    apply (cases "entries = 0"; cases "KERN_MAX_ENTRIES < entries \<and> p_flags p AND IORING_SETUP_CLAMP k = 0";
        cases "p_flags p AND IORING_SETUP_CQSIZE k = 0"; cases "cq_entries p = 0";
        cases "KERN_MAX_CQ_ENTRIES < cq_entries p \<and> p_flags p AND IORING_SETUP_CLAMP k = 0";
        cases "roundup_pow2 (min (cq_entries p) KERN_MAX_CQ_ENTRIES) < roundup_pow2 (min entries KERN_MAX_ENTRIES)";
        simp only: if_False if_True option.case fst_conv simp_thms)
    done
qed


lemma roundup_pow2_le:
  assumes "1 \<le> unat n" "unat n \<le> 2 ^ m" "m \<le> 31"
  shows "1 \<le> unat (roundup_pow2 n)" and "unat (roundup_pow2 n) \<le> 2 ^ m"
proof -
  have "(2::nat) ^ m \<le> 2 ^ 31" using assms(3) by (intro power_increasing) simp_all
  then have n31: "unat n \<le> 2 ^ 31" using assms(2) by simp
  have u: "unat (roundup_pow2 n) = 2 ^ floorlog 2 (unat n - 1)"
    using assms(1) n31 by (rule roundup_pow2_ge)
  show "1 \<le> unat (roundup_pow2 n)" by (simp add: u)
  have "unat n - 1 < 2 ^ m" using assms by simp
  then have "floorlog 2 (unat n - 1) \<le> m" by (simp add: floorlog_le_iff)
  then show "unat (roundup_pow2 n) \<le> 2 ^ m" by (simp add: u power_increasing)
qed

lemma unat_min_word: "unat (min a b) = min (unat a) (unat (b :: 'a::len word))"
  by (simp add: min_def word_le_nat_alt)

lemma submission_depth_bounds:
  assumes "entries \<noteq> 0"
  shows "1 \<le> unat (roundup_pow2 (min entries KERN_MAX_ENTRIES))"
    and "unat (roundup_pow2 (min entries KERN_MAX_ENTRIES)) \<le> 2 ^ 15"
proof -
  have "unat entries \<noteq> 0" using assms by (simp add: unat_eq_0)
  then have a: "1 \<le> unat (min entries KERN_MAX_ENTRIES)"
    by (simp add: unat_min_word KERN_MAX_ENTRIES_def)
  have b: "unat (min entries KERN_MAX_ENTRIES) \<le> 2 ^ 15"
    by (simp add: unat_min_word KERN_MAX_ENTRIES_def)
  show "1 \<le> unat (roundup_pow2 (min entries KERN_MAX_ENTRIES))"
    using a b by (rule roundup_pow2_le) simp
  show "unat (roundup_pow2 (min entries KERN_MAX_ENTRIES)) \<le> 2 ^ 15"
    using a b by (rule roundup_pow2_le) simp
qed

lemma completion_depth_bounds:
  assumes "cqn \<noteq> 0"
  shows "unat (roundup_pow2 (min cqn KERN_MAX_CQ_ENTRIES)) \<le> 2 ^ 16"
proof -
  have "unat cqn \<noteq> 0" using assms by (simp add: unat_eq_0)
  then have a: "1 \<le> unat (min cqn KERN_MAX_CQ_ENTRIES)"
    by (simp add: unat_min_word KERN_MAX_CQ_ENTRIES_def KERN_MAX_ENTRIES_def)
  have b: "unat (min cqn KERN_MAX_CQ_ENTRIES) \<le> 2 ^ 16"
    by (simp add: unat_min_word KERN_MAX_CQ_ENTRIES_def KERN_MAX_ENTRIES_def)
  show ?thesis using a b by (rule roundup_pow2_le) simp
qed

lemma round_up_64_le: "round_up_64 n \<le> n + 63"
  by (simp add: round_up_64_def)

lemma estimate_value:
  assumes e: "1 \<le> unat e" "unat e \<le> 2 ^ 15" and c: "unat c \<le> 2 ^ 16"
    and sqe: "1 \<le> unat (sizeof_sqe k)" "unat (sizeof_sqe k) \<le> 2 ^ 16"
    and cqe: "unat (sizeof_cqe k) \<le> 2 ^ 15"
    and ps: "ps \<noteq> 0"
  shows "map_option sint (rings_size k e c ps) =
     Some (int (pow2_locked_bytes (unat (sizeof_sqe k)) (unat (sizeof_cqe k)) (unat e) (unat c)
                  (unat ps)))"
proof -
  have "unat c * unat (sizeof_cqe k) \<le> 2 ^ 16 * 2 ^ 15" using c cqe by (rule mult_le_mono)
  then have "320 + unat c * unat (sizeof_cqe k) + 63 < 2 ^ 32" by simp
  then have cq: "round_up_64 (320 + unat c * unat (sizeof_cqe k)) < 2 ^ 32"
    using round_up_64_le [of "320 + unat c * unat (sizeof_cqe k)"] by linarith
  have "unat e * unat (sizeof_sqe k) \<le> 2 ^ 15 * 2 ^ 16" using e(2) sqe(2) by (rule mult_le_mono)
  then have sq2: "unat e * unat (sizeof_sqe k) < 2 ^ 32" by simp
  have "1 * 1 \<le> unat e * unat (sizeof_sqe k)" using e(1) sqe(1) by (rule mult_le_mono)
  then have sq1: "1 \<le> unat e * unat (sizeof_sqe k)" by simp
  obtain v where v: "rings_size k e c ps = Some v"
      "unat v = (pow2_pages (round_up_64 (320 + unat c * unat (sizeof_cqe k))) (unat ps)
                 + pow2_pages (unat e * unat (sizeof_sqe k)) (unat ps)) * unat ps"
      "sint v = int (unat v)"
    using rings_size_nat [OF ps cq sq1 sq2] by blast
  show ?thesis by (simp only: v option.map pow2_locked_bytes_def)
qed

section \<open>Claims about the memory-lock estimate\<close>

lemma unat_page_size:
  fixes pr :: int
  defines "pr' \<equiv> (if pr < 0 then 4096 else pr)"
  assumes "pr \<noteq> 0" "pr < 2 ^ 32"
  shows "(word_of_int pr' :: u32) \<noteq> 0" and "unat (word_of_int pr' :: u32) = page_size_of pr"
proof -
  have r: "0 < pr'" "pr' < 2 ^ 32" using assms by (simp_all add: pr'_def)
  have "uint (word_of_int pr' :: u32) = pr' mod 2 ^ 32" by (simp add: uint_word_of_int)
  also have "\<dots> = pr'" using r by simp
  finally have u: "uint (word_of_int pr' :: u32) = pr'" .
  then show "unat (word_of_int pr' :: u32) = page_size_of pr"
    by (simp add: unat_eq_nat_uint page_size_of_def pr'_def)
  show "(word_of_int pr' :: u32) \<noteq> 0"
  proof
    assume "(word_of_int pr' :: u32) = 0"
    then have "uint (word_of_int pr' :: u32) = 0" by simp
    then show False using u r by simp
  qed
qed

text \<open>
  Claim C5: whenever the throwaway ring that \<^verbatim>\<open>io_uring_mlock_size_params\<close> creates reports
  the native-worker feature, the function returns 0, whatever the requested depth and the
  options. The throwaway ring is created when \<^verbatim>\<open>io_uring_queue_init_params\<close> does not
  return a negative result; \<open>lp\<close> holds the features it reports.
\<close>

theorem mlock_size_native_workers:
  assumes init: "io_uring_queue_init_params k entries ring0 zero_params w = (ret, ring, lp, w1)"
    and created: "0 \<le> ret"
    and native: "p_features lp AND IORING_FEAT_NATIVE_WORKERS k \<noteq> 0"
  shows "fst (io_uring_mlock_size_params k entries p ring0 w) = Some 0"
proof -
  have "\<not> ret < 0" using created by simp
  then show ?thesis
    unfolding io_uring_mlock_size_params_def init prod.case Let_def
    by (simp only: native if_False if_True fst_conv simp_thms)
qed

theorem mlock_size_native_workers_witness:
  "p_features (params_8\<lparr>p_features := 0x200\<rparr>) AND IORING_FEAT_NATIVE_WORKERS linux_uapi \<noteq> 0
   \<and> fst (io_uring_mlock_size_params linux_uapi 0 zero_params zero_ring
          (world_ok\<lparr>setup_replies := [Inr (3, params_8\<lparr>p_features := 0x200\<rparr>)]\<rparr>)) = Some 0"
proof -
  let ?w = "world_ok\<lparr>setup_replies := [Inr (3, params_8\<lparr>p_features := 0x200\<rparr>)]\<rparr>"
  let ?r = "io_uring_queue_init_params linux_uapi 0 zero_ring zero_params ?w"
  have e: "?r = (fst ?r, fst (snd ?r), fst (snd (snd ?r)), snd (snd (snd ?r)))" by simp
  have h1: "0 \<le> fst ?r" by code_simp
  have h2: "p_features (fst (snd (snd ?r))) AND IORING_FEAT_NATIVE_WORKERS linux_uapi \<noteq> 0"
    by code_simp
  have h3: "p_features (params_8\<lparr>p_features := 0x200\<rparr>) AND IORING_FEAT_NATIVE_WORKERS linux_uapi \<noteq> 0"
    by code_simp
  show ?thesis using mlock_size_native_workers [OF e h1 h2, of zero_params] h3 by simp
qed

text \<open>
  Claim C2: for a depth above the kernel maximum of 32768 the estimate is to fail with
  \<^verbatim>\<open>-EINVAL\<close> without the clamping option and to succeed, with the clamped depth 32768, with
  it. The function has the branch that clamps the depth, but it requests its throwaway
  ring first, with the raw depth and zeroed params, that is without the clamping option,
  and returns the refusal of that request. With a depth of 40000, the clamping option set
  and a kernel that refuses the request with \<^verbatim>\<open>EINVAL\<close>, the one call made is the setup with
  depth 40000 and zeroed params, and the result is \<^verbatim>\<open>-EINVAL\<close>, not an estimate.
\<close>

theorem mlock_size_clamp_rejected:
  "KERN_MAX_ENTRIES < 40000
   \<and> p_flags (zero_params\<lparr>p_flags := 0x10\<rparr>) AND IORING_SETUP_CLAMP linux_uapi \<noteq> 0
   \<and> fst (io_uring_mlock_size_params linux_uapi 40000 (zero_params\<lparr>p_flags := 0x10\<rparr>) zero_ring
          (world_ok\<lparr>setup_replies := [Inl EINVAL]\<rparr>)) = Some (- EINVAL)
   \<and> trace (snd (io_uring_mlock_size_params linux_uapi 40000 (zero_params\<lparr>p_flags := 0x10\<rparr>)
          zero_ring (world_ok\<lparr>setup_replies := [Inl EINVAL]\<rparr>)))
       = [Call_setup 40000 zero_params]"
proof -
  let ?w = "world_ok\<lparr>setup_replies := [Inl EINVAL]\<rparr>"
  let ?p = "zero_params\<lparr>p_flags := 0x10\<rparr>"
  have "KERN_MAX_ENTRIES < 40000" by (simp add: KERN_MAX_ENTRIES_def)
  moreover have "p_flags ?p AND IORING_SETUP_CLAMP linux_uapi \<noteq> 0" by code_simp
  moreover have "fst (io_uring_mlock_size_params linux_uapi 40000 ?p zero_ring ?w)
                   = Some (- EINVAL)"
    by code_simp
  moreover have "trace (snd (io_uring_mlock_size_params linux_uapi 40000 ?p zero_ring ?w))
                   = [Call_setup 40000 zero_params]"
    by code_simp
  ultimately show ?thesis by simp
qed

text \<open>
  Claim C3 as stated fails: the two byte counts are not converted to whole pages but to
  whole pages rounded up to a power of two. For a depth of 256 (completion depth 512) and
  4096-byte pages the completion region takes 8512 bytes, three whole pages, and the entry
  array four; the function returns 8 pages, 32768 bytes, not 7 pages, 28672 bytes.
\<close>

theorem mlock_size_pages_not_whole:
  "fst (io_uring_mlock_size_params linux_uapi 256 zero_params zero_ring world_ok) = Some 32768
   \<and> roundup_pow2 (min 256 KERN_MAX_ENTRIES) = 256
   \<and> 2 * roundup_pow2 (min 256 KERN_MAX_ENTRIES) = 512
   \<and> int (spec_locked_bytes 64 16 256 512 4096) = 28672"
proof -
  have "spec_locked_bytes 64 16 256 512 4096 = 28672"
    by (simp add: spec_locked_bytes_def whole_pages_def round_up_64_def)
  moreover have "fst (io_uring_mlock_size_params linux_uapi 256 zero_params zero_ring world_ok)
                   = Some 32768"
    by code_simp
  moreover have "roundup_pow2 (min 256 KERN_MAX_ENTRIES) = 256" by code_simp
  ultimately show ?thesis by simp
qed

text \<open>
  Claim C3, amended: for every validated submission depth and completion depth, the byte
  total returned by the estimator equals the completion-region bytes (320 plus completion
  depth times the completion-record size, rounded up to a 64-byte boundary) converted to
  whole pages and rounded up to a power of two, plus the entry-array bytes (submission depth
  times the entry-record size) converted to whole pages and rounded up to a power of two,
  the sum multiplied by the page size (4096 when the page size cannot be determined). The
  validated depths are the depth rounded up to a power of two after clamping, between 1 and
  32768, and the completion depth, at least the depth and at most 65536. The record sizes
  are assumed to be at most \<open>2 ^ 16\<close> and \<open>2 ^ 15\<close> bytes and the page size to be a non-zero
  32-bit value, so that the estimate does not overflow.
\<close>

theorem mlock_size_params_bytes:
  fixes k :: uapi and entries :: u32 and p :: io_uring_params
  defines "depth \<equiv> roundup_pow2 (min entries KERN_MAX_ENTRIES)"
  defines "cq_depth \<equiv>
             (if p_flags p AND IORING_SETUP_CQSIZE k \<noteq> 0
              then roundup_pow2 (min (cq_entries p) KERN_MAX_CQ_ENTRIES) else 2 * depth)"
  assumes init: "io_uring_queue_init_params k entries ring0 zero_params w = (ret, ring, lp, w1)"
    and created: "0 \<le> ret"
    and no_native: "p_features lp AND IORING_FEAT_NATIVE_WORKERS k = 0"
    and result: "fst (io_uring_mlock_size_params k entries p ring0 w) = Some bytes"
    and nonneg: "0 \<le> bytes"
    and sqe: "1 \<le> unat (sizeof_sqe k)" "unat (sizeof_sqe k) \<le> 2 ^ 16"
    and cqe: "unat (sizeof_cqe k) \<le> 2 ^ 15"
    and page: "pagesize_reply w \<noteq> 0" "pagesize_reply w < 2 ^ 32"
  shows "bytes = int (pow2_locked_bytes (unat (sizeof_sqe k)) (unat (sizeof_cqe k))
                        (unat depth) (unat cq_depth) (page_size_of (pagesize_reply w)))
       \<and> 1 \<le> unat depth \<and> unat depth \<le> 32768 \<and> unat depth \<le> unat cq_depth
       \<and> unat cq_depth \<le> 65536"
proof -
  let ?ps = "word_of_int (if pagesize_reply w < 0 then 4096 else pagesize_reply w) :: u32"
  note run = mlock_size_params_after_ring [OF init created no_native, of p]
  have pos: "Some bytes \<noteq> Some (- EINVAL)" using nonneg by (simp add: EINVAL_def)
  have ne: "entries \<noteq> 0" using result pos by (auto simp: run)
  have ok: "\<not> (p_flags p AND IORING_SETUP_CQSIZE k \<noteq> 0 \<and> cq_entries p = 0)"
      "\<not> (p_flags p AND IORING_SETUP_CQSIZE k \<noteq> 0
            \<and> roundup_pow2 (min (cq_entries p) KERN_MAX_CQ_ENTRIES) < depth)"
    using result pos by (auto simp: run depth_def split: if_splits)
  have rs: "map_option sint (rings_size k depth cq_depth ?ps) = Some bytes"
    using result pos by (auto simp: run depth_def cq_depth_def split: if_splits)
  have d: "1 \<le> unat depth" "unat depth \<le> 2 ^ 15"
    unfolding depth_def using ne by (rule submission_depth_bounds)+
  have c: "unat cq_depth \<le> 2 ^ 16 \<and> unat depth \<le> unat cq_depth"
  proof (cases "p_flags p AND IORING_SETUP_CQSIZE k \<noteq> 0")
    case True
    then have "cq_entries p \<noteq> 0" using ok(1) by simp
    then have "unat (roundup_pow2 (min (cq_entries p) KERN_MAX_CQ_ENTRIES)) \<le> 2 ^ 16"
      by (rule completion_depth_bounds)
    moreover have "depth \<le> roundup_pow2 (min (cq_entries p) KERN_MAX_CQ_ENTRIES)"
      using ok(2) True by (simp add: not_less)
    ultimately show ?thesis using True by (simp add: cq_depth_def word_le_nat_alt)
  next
    case False
    have "unat (2 :: u32) * unat depth < 2 ^ 32" using d(2) by simp
    then have "unat (2 * depth) = 2 * unat depth"
      using unat_mult_lem [of "2 :: u32" depth] by simp
    then show ?thesis using False d by (simp add: cq_depth_def)
  qed
  have "map_option sint (rings_size k depth cq_depth ?ps) =
          Some (int (pow2_locked_bytes (unat (sizeof_sqe k)) (unat (sizeof_cqe k)) (unat depth)
                       (unat cq_depth) (unat ?ps)))"
    using d c sqe cqe unat_page_size(1) [OF page] by (intro estimate_value) simp_all
  then have "bytes = int (pow2_locked_bytes (unat (sizeof_sqe k)) (unat (sizeof_cqe k))
                            (unat depth) (unat cq_depth) (page_size_of (pagesize_reply w)))"
    using rs by (simp add: unat_page_size(2) [OF page])
  then show ?thesis using d c by simp
qed

theorem mlock_size_params_bytes_witness:
  "fst (io_uring_mlock_size_params linux_uapi 5 zero_params zero_ring world_ok) = Some 8192
   \<and> unat (roundup_pow2 (min 5 KERN_MAX_ENTRIES)) = 8
   \<and> (8192 :: int) = int (pow2_locked_bytes 64 16 8 16 4096)"
proof -
  let ?r = "io_uring_queue_init_params linux_uapi 5 zero_ring zero_params world_ok"
  have e: "?r = (fst ?r, fst (snd ?r), fst (snd (snd ?r)), snd (snd (snd ?r)))" by simp
  have h1: "0 \<le> fst ?r" by code_simp
  have h2: "p_features (fst (snd (snd ?r))) AND IORING_FEAT_NATIVE_WORKERS linux_uapi = 0"
    by code_simp
  have res: "fst (io_uring_mlock_size_params linux_uapi 5 zero_params zero_ring world_ok)
               = Some 8192"
    by code_simp
  have sz: "1 \<le> unat (sizeof_sqe linux_uapi)" "unat (sizeof_sqe linux_uapi) \<le> 2 ^ 16"
    "unat (sizeof_cqe linux_uapi) \<le> 2 ^ 15"
    by (simp_all add: linux_uapi_def)
  have pg: "pagesize_reply world_ok \<noteq> 0" "pagesize_reply world_ok < 2 ^ 32"
    by (simp_all add: world_ok_def)
  have d: "roundup_pow2 (min 5 KERN_MAX_ENTRIES) = 8" by code_simp
  have f: "p_flags zero_params AND IORING_SETUP_CQSIZE linux_uapi = 0"
    by (simp add: zero_params_def)
  have "(8192 :: int) = int (pow2_locked_bytes 64 16 8 16 4096)"
    using mlock_size_params_bytes [OF e h1 h2 res _ sz pg] d f
    by (simp add: linux_uapi_def world_ok_def page_size_of_def)
  then show ?thesis using res d by simp
qed

text \<open>
  Claim C6 as stated fails in its last part: the override is rounded up to a power of two
  before it is compared with the rounded depth, so an override of 5 with a depth of 8 is
  accepted.
\<close>

theorem mlock_size_small_override_accepted:
  "(5 :: u32) < roundup_pow2 (min 8 KERN_MAX_ENTRIES)
   \<and> p_flags (zero_params\<lparr>p_flags := 8, cq_entries := 5\<rparr>) AND IORING_SETUP_CQSIZE linux_uapi \<noteq> 0
   \<and> fst (io_uring_mlock_size_params linux_uapi 8 (zero_params\<lparr>p_flags := 8, cq_entries := 5\<rparr>)
          zero_ring world_ok) = Some 8192"
  by code_simp

text \<open>
  Claim C6, amended: provided the throwaway ring is created and does not report native
  workers, for every call in which the options supply a completion-size override, a zero
  override fails with \<^verbatim>\<open>-EINVAL\<close>, and an override whose power-of-two rounding (after
  clamping to 65536) is smaller than the rounded submission depth fails with \<^verbatim>\<open>-EINVAL\<close>.
\<close>

theorem mlock_size_cq_override_checked:
  assumes init: "io_uring_queue_init_params k entries ring0 zero_params w = (ret, ring, lp, w1)"
    and created: "0 \<le> ret"
    and no_native: "p_features lp AND IORING_FEAT_NATIVE_WORKERS k = 0"
    and override: "p_flags p AND IORING_SETUP_CQSIZE k \<noteq> 0"
  shows "(cq_entries p = 0 \<longrightarrow>
            fst (io_uring_mlock_size_params k entries p ring0 w) = Some (- EINVAL))
       \<and> (roundup_pow2 (min (cq_entries p) KERN_MAX_CQ_ENTRIES)
              < roundup_pow2 (min entries KERN_MAX_ENTRIES) \<longrightarrow>
            fst (io_uring_mlock_size_params k entries p ring0 w) = Some (- EINVAL))"
proof (intro conjI impI)
  note run = mlock_size_params_after_ring [OF init created no_native, of p]
  show "fst (io_uring_mlock_size_params k entries p ring0 w) = Some (- EINVAL)"
    if "cq_entries p = 0"
    unfolding run using that override by simp
  show "fst (io_uring_mlock_size_params k entries p ring0 w) = Some (- EINVAL)"
    if "roundup_pow2 (min (cq_entries p) KERN_MAX_CQ_ENTRIES)
          < roundup_pow2 (min entries KERN_MAX_ENTRIES)"
    unfolding run using that override by simp
qed

theorem mlock_size_cq_override_checked_witness:
  "fst (io_uring_mlock_size_params linux_uapi 8 (zero_params\<lparr>p_flags := 8, cq_entries := 0\<rparr>)
      zero_ring world_ok) = Some (- EINVAL)
   \<and> fst (io_uring_mlock_size_params linux_uapi 8 (zero_params\<lparr>p_flags := 8, cq_entries := 4\<rparr>)
      zero_ring world_ok) = Some (- EINVAL)"
proof -
  let ?r = "io_uring_queue_init_params linux_uapi 8 zero_ring zero_params world_ok"
  have e: "?r = (fst ?r, fst (snd ?r), fst (snd (snd ?r)), snd (snd (snd ?r)))" by simp
  have h1: "0 \<le> fst ?r" by code_simp
  have h2: "p_features (fst (snd (snd ?r))) AND IORING_FEAT_NATIVE_WORKERS linux_uapi = 0"
    by code_simp
  have f: "p_flags (zero_params\<lparr>p_flags := 8, cq_entries := c\<rparr>) AND IORING_SETUP_CQSIZE linux_uapi \<noteq> 0"
    for c by (simp add: linux_uapi_def)
  have c0: "cq_entries (zero_params\<lparr>p_flags := 8, cq_entries := 0\<rparr>) = 0" by simp
  have c4: "roundup_pow2 (min (cq_entries (zero_params\<lparr>p_flags := 8, cq_entries := 4\<rparr>))
              KERN_MAX_CQ_ENTRIES) < roundup_pow2 (min 8 KERN_MAX_ENTRIES)"
    by code_simp
  show ?thesis
    using mlock_size_cq_override_checked [OF e h1 h2 f [of 0]]
      mlock_size_cq_override_checked [OF e h1 h2 f [of 4]] c0 c4
    by blast
qed

section \<open>Mapping the rings\<close>

lemma new_calls_append [simp]: "trace w' = trace w @ cs \<Longrightarrow> new_calls w w' = cs"
  by (simp add: new_calls_def)

text \<open>With positive error codes, the mapper returns 0 or a negative result.\<close>

lemma io_uring_mmap_result_sign:
  assumes "mmap_replies_ok w"
  shows "fst (io_uring_mmap k fd p sq cq w) \<le> 0"
  using assms unfolding io_uring_mmap_def io_uring_mmap_err_def io_uring_unmap_rings_def sys_mmap_def sys_munmap_def log_call_def Let_def
  by (auto simp: mmap_replies_ok_def mmap_reply_ok_def ENOMEM_def split: list.splits sum.splits if_splits prod.splits)

lemma io_uring_queue_mmap_keeps [simp]:
  "open_fds (snd (snd (io_uring_queue_mmap k fd p ring w))) = open_fds w"
  "malloc_replies (snd (snd (io_uring_queue_mmap k fd p ring w))) = malloc_replies w"
  "register_replies (snd (snd (io_uring_queue_mmap k fd p ring w))) = register_replies w"
  by (simp_all add: io_uring_queue_mmap_def Let_def split_beta)

lemma io_uring_queue_mmap_result:
  "fst (io_uring_queue_mmap k fd p ring0 w)
     = fst (io_uring_mmap k fd p (ring_sq zero_ring) (ring_cq zero_ring) w)"
  by (simp add: io_uring_queue_mmap_def Let_def split_beta)

lemma io_uring_queue_mmap_fd:
  "fst (io_uring_queue_mmap k fd p ring0 w) = 0
     \<Longrightarrow> ring_fd (fst (snd (io_uring_queue_mmap k fd p ring0 w))) = fd"
  by (simp add: io_uring_queue_mmap_def Let_def split_beta)

lemma io_uring_queue_init_params_outcome:
  assumes run: "io_uring_queue_init_params k n ring0 p0 w = (r, ring, p, w1)"
    and env: "mmap_replies_ok w" "setup_replies_ok w"
  shows "r \<le> 0" and "r = 0 \<Longrightarrow> open_fds w1 = ring_fd ring # open_fds w"
    and "r \<noteq> 0 \<Longrightarrow> open_fds w1 = open_fds w"
    and "malloc_replies w1 = malloc_replies w" and "register_replies w1 = register_replies w"
proof -
  obtain fd p' ws where s: "sys_io_uring_setup n p0 w = (fd, p', ws)"
    by (metis prod_cases3)
  have ws: "mmap_replies ws = mmap_replies w" "malloc_replies ws = malloc_replies w"
    "register_replies ws = register_replies w"
    using s by (auto simp: sys_io_uring_setup_def split: list.splits sum.splits prod.splits)
  have fds: "fd < 0 \<longrightarrow> open_fds ws = open_fds w \<and> 0 < errno ws"
    "0 \<le> fd \<longrightarrow> open_fds ws = fd # open_fds w"
    using s env(2)
    by (auto simp: sys_io_uring_setup_def setup_replies_ok_def setup_reply_ok_def ENOMEM_def
        split: list.splits sum.splits prod.splits)
  have envs: "mmap_replies_ok ws" using env(1) ws by (simp add: mmap_replies_ok_def)
  obtain ret ring' wm where m: "io_uring_queue_mmap k fd p' ring0 ws = (ret, ring', wm)"
    by (metis prod_cases3)
  have ret: "ret \<le> 0"
    using io_uring_mmap_result_sign [OF envs, of k fd p' "ring_sq zero_ring" "ring_cq zero_ring"]
      io_uring_queue_mmap_result [of k fd p' ring0 ws] m by simp
  have wm: "open_fds wm = open_fds ws" "malloc_replies wm = malloc_replies ws"
    "register_replies wm = register_replies ws"
    using io_uring_queue_mmap_keeps [of k fd p' ring0 ws] m by simp_all
  have rfd: "ret = 0 \<longrightarrow> ring_fd ring' = fd"
    using io_uring_queue_mmap_fd [of k fd p' ring0 ws] m by simp
  have res: "(r, ring, p, w1) =
      (if fd < 0 then (- errno ws, ring0, p', ws)
       else if ret \<noteq> 0 then (ret, ring', p', sys_close fd wm)
       else (0, ring'\<lparr>ring_features := p_features p'\<rparr>, p', wm))"
    using run by (cases "fd < 0") (auto simp: io_uring_queue_init_params_def s m Let_def)
  show "r \<le> 0" using res ret fds by (auto split: if_splits)
  show "r = 0 \<Longrightarrow> open_fds w1 = ring_fd ring # open_fds w"
    using res ret fds wm rfd by (auto split: if_splits)
  show "r \<noteq> 0 \<Longrightarrow> open_fds w1 = open_fds w"
    using res ret fds wm by (auto split: if_splits)
  show "malloc_replies w1 = malloc_replies w" using res ws wm by (auto split: if_splits)
  show "register_replies w1 = register_replies w" using res ws wm by (auto split: if_splits)
qed


section \<open>Claims about mapping and unmapping\<close>




text \<open>The single combined mapping, path by path: what the mapper does when the operating
  system grants the ring mapping, when it grants both mappings, and that it returns 0 only
  when both are granted.\<close>

lemma io_uring_mmap_single_granted:
  assumes run: "io_uring_mmap k fd p sq cq w = (ret, sq', cq', w')"
    and single: "single_mmap k p"
    and env: "mmap_replies_ok w"
    and granted: "mmap_replies w = Inr a # Inr b # rs"
  shows "ret = 0" and "sq_ring_ptr sq' = a" and "cq_ring_ptr cq' = a" and "sq_sqes sq' = b"
    and "mappings w' =
           (b, sqes_len k p) # (a, max (sq_region_len p) (cq_region_len k p)) # mappings w"
    and "new_calls w w' =
           [Call_mmap (max (sq_region_len p) (cq_region_len k p)) fd (IORING_OFF_SQ_RING k) a,
            Call_mmap (sqes_len k p) fd (IORING_OFF_SQES k) b]"
  using assms unfolding io_uring_mmap_def io_uring_mmap_err_def io_uring_unmap_rings_def sys_mmap_def sys_munmap_def log_call_def Let_def new_calls_def single_mmap_def sq_region_len_def cq_region_len_def sqes_len_def
  by (auto simp: mmap_replies_ok_def mmap_reply_ok_def max_def split: if_splits prod.splits)

lemma io_uring_mmap_single_first:
  assumes run: "io_uring_mmap k fd p sq cq w = (ret, sq', cq', w')"
    and single: "single_mmap k p"
    and env: "mmap_replies_ok w"
    and granted: "mmap_replies w = Inr a # rs"
    and ids: "IORING_OFF_SQES k \<noteq> IORING_OFF_SQ_RING k" "IORING_OFF_SQES k \<noteq> IORING_OFF_CQ_RING k"
  shows "sq_ring_ptr sq' = a" and "cq_ring_ptr cq' = a"
    and "established (filter (is_ring_mmap k) (new_calls w w')) =
           [(a, max (sq_region_len p) (cq_region_len k p))]"
    and "ret \<noteq> 0 \<longrightarrow> released (new_calls w w') =
           [(a, max (sq_region_len p) (cq_region_len k p))]"
  using assms unfolding io_uring_mmap_def io_uring_mmap_err_def io_uring_unmap_rings_def sys_mmap_def sys_munmap_def log_call_def Let_def new_calls_def single_mmap_def sq_region_len_def cq_region_len_def sqes_len_def
  by (auto simp: mmap_replies_ok_def mmap_reply_ok_def max_def ENOMEM_def split: list.splits sum.splits if_splits prod.splits)

lemma io_uring_mmap_single_success:
  assumes run: "io_uring_mmap k fd p sq cq w = (ret, sq', cq', w')"
    and single: "single_mmap k p"
    and env: "mmap_replies_ok w"
    and ok: "ret = 0"
  shows "\<exists>a b rs. mmap_replies w = Inr a # Inr b # rs"
  using assms unfolding io_uring_mmap_def io_uring_mmap_err_def io_uring_unmap_rings_def sys_mmap_def sys_munmap_def log_call_def Let_def single_mmap_def
  by (auto simp: mmap_replies_ok_def mmap_reply_ok_def ENOMEM_def split: list.splits sum.splits if_splits prod.splits)

lemma io_uring_mmap_single_shape:
  assumes run: "io_uring_mmap k fd p sq cq w = (ret, sq', cq', w')"
    and single: "single_mmap k p"
    and env: "mmap_replies_ok w"
    and ids: "IORING_OFF_SQES k \<noteq> IORING_OFF_SQ_RING k" "IORING_OFF_SQES k \<noteq> IORING_OFF_CQ_RING k"
  shows "filter (is_ring_mmap k) (new_calls w w') =
           [Call_mmap (max (sq_region_len p) (cq_region_len k p)) fd (IORING_OFF_SQ_RING k)
              (sq_ring_ptr sq')]
       \<and> sq_ring_sz sq' = max (sq_region_len p) (cq_region_len k p)
       \<and> cq_ring_sz cq' = sq_ring_sz sq'
       \<and> (sq_ring_ptr sq' \<noteq> MAP_FAILED \<longrightarrow> cq_ring_ptr cq' = sq_ring_ptr sq')
       \<and> (ret = 0 \<longrightarrow> sq_ring_ptr sq' \<noteq> MAP_FAILED
             \<and> (sq_ring_ptr sq', sq_ring_sz sq') \<in> set (mappings w'))"
  using assms unfolding io_uring_mmap_def io_uring_mmap_err_def io_uring_unmap_rings_def sys_mmap_def sys_munmap_def log_call_def Let_def new_calls_def single_mmap_def sq_region_len_def cq_region_len_def
  by (auto simp: mmap_replies_ok_def mmap_reply_ok_def ENOMEM_def max_def split: list.splits sum.splits if_splits prod.splits)

text \<open>
  Claim C4: whenever the resolved params report the single-combined-mapping feature, the
  mapper makes exactly one ring-metadata mapping, whose length is the maximum of the
  submission-region and completion-region lengths; both descriptors hold its base address,
  and the completion side's region length equals the submission side's. When the operating
  system grants that mapping, it is the one ring-metadata mapping the call establishes;
  when it also grants the entry-record array, the mapper returns 0 with both mappings
  live and no call but the two \<^verbatim>\<open>mmap\<close>s made; and the mapper returns 0 in no other case.
  The operating system is assumed to keep its promises (\<open>mmap_replies_ok\<close>), and the region
  identifier of the entry-record array to differ from the two ring identifiers.
\<close>

theorem io_uring_mmap_single:
  assumes run: "io_uring_mmap k fd p sq cq w = (ret, sq', cq', w')"
    and single: "single_mmap k p"
    and env: "mmap_replies_ok w"
    and ids: "IORING_OFF_SQES k \<noteq> IORING_OFF_SQ_RING k" "IORING_OFF_SQES k \<noteq> IORING_OFF_CQ_RING k"
  shows "filter (is_ring_mmap k) (new_calls w w') =
           [Call_mmap (max (sq_region_len p) (cq_region_len k p)) fd (IORING_OFF_SQ_RING k)
              (sq_ring_ptr sq')]
       \<and> sq_ring_sz sq' = max (sq_region_len p) (cq_region_len k p)
       \<and> cq_ring_sz cq' = sq_ring_sz sq'
       \<and> (sq_ring_ptr sq' \<noteq> MAP_FAILED \<longrightarrow> cq_ring_ptr cq' = sq_ring_ptr sq')
       \<and> (ret = 0 \<longrightarrow> sq_ring_ptr sq' \<noteq> MAP_FAILED
             \<and> (sq_ring_ptr sq', sq_ring_sz sq') \<in> set (mappings w'))
       \<and> (\<forall>a rs. mmap_replies w = Inr a # rs \<longrightarrow>
             sq_ring_ptr sq' = a \<and> cq_ring_ptr cq' = a
             \<and> established (filter (is_ring_mmap k) (new_calls w w'))
                 = [(a, max (sq_region_len p) (cq_region_len k p))])
       \<and> (\<forall>a b rs. mmap_replies w = Inr a # Inr b # rs \<longrightarrow>
             ret = 0 \<and> sq_sqes sq' = b
             \<and> mappings w' =
                   (b, sqes_len k p) # (a, max (sq_region_len p) (cq_region_len k p))
                   # mappings w
             \<and> new_calls w w' =
                   [Call_mmap (max (sq_region_len p) (cq_region_len k p)) fd
                      (IORING_OFF_SQ_RING k) a,
                    Call_mmap (sqes_len k p) fd (IORING_OFF_SQES k) b])
       \<and> (ret = 0 \<longleftrightarrow> (\<exists>a b rs. mmap_replies w = Inr a # Inr b # rs))"
proof -
  note shape = io_uring_mmap_single_shape [OF run single env ids]
  have first: "sq_ring_ptr sq' = a \<and> cq_ring_ptr cq' = a
      \<and> established (filter (is_ring_mmap k) (new_calls w w'))
          = [(a, max (sq_region_len p) (cq_region_len k p))]"
    if "mmap_replies w = Inr a # rs" for a rs
    using io_uring_mmap_single_first [OF run single env that ids] by simp
  have both: "ret = 0 \<and> sq_sqes sq' = b
      \<and> mappings w' =
            (b, sqes_len k p) # (a, max (sq_region_len p) (cq_region_len k p)) # mappings w
      \<and> new_calls w w' =
            [Call_mmap (max (sq_region_len p) (cq_region_len k p)) fd (IORING_OFF_SQ_RING k) a,
             Call_mmap (sqes_len k p) fd (IORING_OFF_SQES k) b]"
    if "mmap_replies w = Inr a # Inr b # rs" for a b rs
    using io_uring_mmap_single_granted [OF run single env that] by simp
  have iff: "ret = 0 \<longleftrightarrow> (\<exists>a b rs. mmap_replies w = Inr a # Inr b # rs)"
    using io_uring_mmap_single_success [OF run single env] both by blast
  show ?thesis using shape first both iff by blast
qed

theorem io_uring_mmap_single_witness:
  "single_mmap linux_uapi (params_8\<lparr>p_features := 1\<rparr>)
   \<and> max (sq_region_len (params_8\<lparr>p_features := 1\<rparr>))
         (cq_region_len linux_uapi (params_8\<lparr>p_features := 1\<rparr>)) = 608
   \<and> fst (io_uring_mmap linux_uapi 3 (params_8\<lparr>p_features := 1\<rparr>)
          (ring_sq zero_ring) (ring_cq zero_ring) world_ok) = 0
   \<and> new_calls world_ok
        (snd (snd (snd (io_uring_mmap linux_uapi 3 (params_8\<lparr>p_features := 1\<rparr>)
           (ring_sq zero_ring) (ring_cq zero_ring) world_ok))))
       = [Call_mmap 608 3 0 0x10000, Call_mmap 512 3 0x10000000 0x20000]
   \<and> mappings
        (snd (snd (snd (io_uring_mmap linux_uapi 3 (params_8\<lparr>p_features := 1\<rparr>)
           (ring_sq zero_ring) (ring_cq zero_ring) world_ok))))
       = [(0x20000, 512), (0x10000, 608)]
   \<and> sq_ring_ptr (fst (snd (io_uring_mmap linux_uapi 3 (params_8\<lparr>p_features := 1\<rparr>)
             (ring_sq zero_ring) (ring_cq zero_ring) world_ok))) = 0x10000
   \<and> cq_ring_ptr (fst (snd (snd (io_uring_mmap linux_uapi 3 (params_8\<lparr>p_features := 1\<rparr>)
             (ring_sq zero_ring) (ring_cq zero_ring) world_ok)))) = 0x10000
   \<and> sq_ring_sz (fst (snd (io_uring_mmap linux_uapi 3 (params_8\<lparr>p_features := 1\<rparr>)
             (ring_sq zero_ring) (ring_cq zero_ring) world_ok))) = 608
   \<and> cq_ring_sz (fst (snd (snd (io_uring_mmap linux_uapi 3 (params_8\<lparr>p_features := 1\<rparr>)
             (ring_sq zero_ring) (ring_cq zero_ring) world_ok)))) = 608"
proof -
  let ?p = "params_8\<lparr>p_features := 1\<rparr>"
  let ?r = "io_uring_mmap linux_uapi 3 ?p (ring_sq zero_ring) (ring_cq zero_ring) world_ok"
  have e: "?r = (fst ?r, fst (snd ?r), fst (snd (snd ?r)), snd (snd (snd ?r)))" by simp
  have single: "single_mmap linux_uapi ?p" by code_simp
  have env: "mmap_replies_ok world_ok" by code_simp
  have ids: "IORING_OFF_SQES linux_uapi \<noteq> IORING_OFF_SQ_RING linux_uapi"
    "IORING_OFF_SQES linux_uapi \<noteq> IORING_OFF_CQ_RING linux_uapi"
    by (simp_all add: linux_uapi_def)
  have len: "max (sq_region_len ?p) (cq_region_len linux_uapi ?p) = 608" by code_simp
  have sqes: "sqes_len linux_uapi ?p = 512" by code_simp
  have granted: "mmap_replies world_ok = Inr 0x10000 # Inr 0x20000 # [Inr 0x30000]"
    by (simp add: world_ok_def)
  have none: "mappings world_ok = []" by (simp add: world_ok_def)
  note main = io_uring_mmap_single [OF e single env ids]
  have first: "sq_ring_ptr (fst (snd ?r)) = 0x10000 \<and> cq_ring_ptr (fst (snd (snd ?r))) = 0x10000"
    using main granted by blast
  have both: "fst ?r = 0
      \<and> mappings (snd (snd (snd ?r))) =
            (0x20000, sqes_len linux_uapi ?p)
            # (0x10000, max (sq_region_len ?p) (cq_region_len linux_uapi ?p)) # mappings world_ok
      \<and> new_calls world_ok (snd (snd (snd ?r))) =
            [Call_mmap (max (sq_region_len ?p) (cq_region_len linux_uapi ?p)) 3
               (IORING_OFF_SQ_RING linux_uapi) 0x10000,
             Call_mmap (sqes_len linux_uapi ?p) 3 (IORING_OFF_SQES linux_uapi) 0x20000]"
    using main granted by blast
  have sz: "sq_ring_sz (fst (snd ?r)) = max (sq_region_len ?p) (cq_region_len linux_uapi ?p)
      \<and> cq_ring_sz (fst (snd (snd ?r))) = sq_ring_sz (fst (snd ?r))"
    using main by blast
  have offs: "IORING_OFF_SQ_RING linux_uapi = 0" "IORING_OFF_SQES linux_uapi = 0x10000000"
    by (simp_all add: linux_uapi_def)
  show ?thesis
    using single first both sz by (simp add: len sqes none offs)
qed

lemma io_uring_queue_exit_trace:
  "trace (io_uring_queue_exit k ring w) = trace w @ teardown_calls k ring w"
  by (simp add: io_uring_queue_exit_def io_uring_unmap_rings_def teardown_calls_def Let_def)

text \<open>
  Claim C8 as stated fails in the order of the unmaps: for the ring created in \<open>world_ok\<close>,
  with two ring mappings, \<^verbatim>\<open>io_uring_queue_exit\<close> unmaps the submission-side region (at
  0x10000) before the completion-side region (at 0x20000), not after it.
\<close>

theorem io_uring_queue_exit_submission_first:
  "fst (io_uring_queue_init linux_uapi 8 zero_ring 0 world_ok) = 0
   \<and> new_calls (snd (snd (io_uring_queue_init linux_uapi 8 zero_ring 0 world_ok)))
        (io_uring_queue_exit linux_uapi
           (fst (snd (io_uring_queue_init linux_uapi 8 zero_ring 0 world_ok)))
           (snd (snd (io_uring_queue_init linux_uapi 8 zero_ring 0 world_ok))))
       = [Call_munmap 0x30000 512, Call_munmap 0x10000 608, Call_munmap 0x20000 576,
          Call_close 3]
   \<and> spec_teardown_calls linux_uapi
        (fst (snd (io_uring_queue_init linux_uapi 8 zero_ring 0 world_ok)))
        (snd (snd (io_uring_queue_init linux_uapi 8 zero_ring 0 world_ok)))
       = [Call_munmap 0x30000 512, Call_munmap 0x20000 576, Call_munmap 0x10000 608,
          Call_close 3]"
  by code_simp

text \<open>
  Claim C8, amended: for every ring handle, \<^verbatim>\<open>io_uring_queue_exit\<close> performs its unmaps in
  this order: first the entry-record array, sized by the granted submission entry count read
  from the shared ring-entries field; then the submission-side region; then the
  completion-side region, only if its base address is not \<^verbatim>\<open>NULL\<close> and differs from the
  submission-side base address; and finally it closes the channel descriptor.
\<close>

theorem io_uring_queue_exit_order:
  "new_calls w (io_uring_queue_exit k ring w) =
     [Call_munmap (sq_sqes (ring_sq ring))
        (ucast (shared w (sq_kring_entries (ring_sq ring))) * sizeof_sqe k)]
     @ [Call_munmap (sq_ring_ptr (ring_sq ring)) (sq_ring_sz (ring_sq ring))]
     @ (if cq_ring_ptr (ring_cq ring) \<noteq> 0
           \<and> cq_ring_ptr (ring_cq ring) \<noteq> sq_ring_ptr (ring_sq ring)
        then [Call_munmap (cq_ring_ptr (ring_cq ring)) (cq_ring_sz (ring_cq ring))] else [])
     @ [Call_close (ring_fd ring)]"
proof -
  have "trace (io_uring_queue_exit k ring w) = trace w @ teardown_calls k ring w"
    by (rule io_uring_queue_exit_trace)
  then have "new_calls w (io_uring_queue_exit k ring w) = teardown_calls k ring w"
    by (rule new_calls_append)
  then show ?thesis by (simp only: teardown_calls_def)
qed

theorem io_uring_queue_exit_order_witness:
  "new_calls (snd (snd (io_uring_queue_init linux_uapi 8 zero_ring 0 world_ok)))
     (io_uring_queue_exit linux_uapi
        (fst (snd (io_uring_queue_init linux_uapi 8 zero_ring 0 world_ok)))
        (snd (snd (io_uring_queue_init linux_uapi 8 zero_ring 0 world_ok))))
   = [Call_munmap 0x30000 512, Call_munmap 0x10000 608, Call_munmap 0x20000 576, Call_close 3]"
proof -
  let ?i = "io_uring_queue_init linux_uapi 8 zero_ring 0 world_ok"
  have "teardown_calls linux_uapi (fst (snd ?i)) (snd (snd ?i))
          = [Call_munmap 0x30000 512, Call_munmap 0x10000 608, Call_munmap 0x20000 576,
             Call_close 3]"
    by code_simp
  then show ?thesis
    using io_uring_queue_exit_order [of "snd (snd ?i)" linux_uapi "fst (snd ?i)",
        folded teardown_calls_def]
    by (simp only:)
qed

text \<open>With positive error codes, the mapper fails exactly when one of its \<^verbatim>\<open>mmap\<close> calls
  returns \<^verbatim>\<open>MAP_FAILED\<close>.\<close>

lemma io_uring_mmap_failed_iff:
  assumes run: "io_uring_mmap k fd p sq cq w = (ret, sq', cq', w')"
    and env: "mmap_replies_ok w"
  shows "ret \<noteq> 0 \<longleftrightarrow> MAP_FAILED \<in> set (mmap_results (new_calls w w'))"
  using assms unfolding io_uring_mmap_def io_uring_mmap_err_def io_uring_unmap_rings_def sys_mmap_def sys_munmap_def log_call_def Let_def new_calls_def
  by (auto simp: mmap_replies_ok_def mmap_reply_ok_def ENOMEM_def split: list.splits sum.splits if_splits prod.splits)

text \<open>
  Claim C10: \<^verbatim>\<open>io_uring_queue_mmap\<close> zeroes the whole ring before mapping (its result does
  not depend on what the ring held, and the features field is left at zero), and writes the
  flags and the descriptor only when the mapper returns 0; when the mapper fails both fields
  are left at zero. In a world that keeps the promises of the operating system, the mapper
  fails whenever one of its \<^verbatim>\<open>mmap\<close> calls returns \<^verbatim>\<open>MAP_FAILED\<close>.
\<close>

theorem io_uring_queue_mmap_flags_fd:
  assumes run: "io_uring_queue_mmap k fd p ring0 w = (ret, ring, w')"
  shows "ret = fst (io_uring_mmap k fd p (ring_sq zero_ring) (ring_cq zero_ring) w)
       \<and> (ret = 0 \<longrightarrow> ring_flags ring = p_flags p \<and> ring_fd ring = fd)
       \<and> (ret \<noteq> 0 \<longrightarrow> ring_flags ring = 0 \<and> ring_fd ring = 0)
       \<and> (mmap_replies_ok w \<and> MAP_FAILED \<in> set (mmap_results (new_calls w w')) \<longrightarrow>
            ret < 0 \<and> ring_flags ring = 0 \<and> ring_fd ring = 0)
       \<and> ring_features ring = 0
       \<and> io_uring_queue_mmap k fd p zero_ring w = (ret, ring, w')"
proof -
  obtain r sq' cq' w1 where
    m: "io_uring_mmap k fd p (ring_sq zero_ring) (ring_cq zero_ring) w = (r, sq', cq', w1)"
    by (metis prod_cases4)
  have res: "ret = r" "w' = w1"
      "ring = (if r = 0 then zero_ring\<lparr>ring_sq := sq', ring_cq := cq', ring_flags := p_flags p,
                                        ring_fd := fd\<rparr>
               else zero_ring\<lparr>ring_sq := sq', ring_cq := cq'\<rparr>)"
    using run by (auto simp: io_uring_queue_mmap_def m Let_def)
  have z: "ring_flags zero_ring = 0" "ring_fd zero_ring = 0" "ring_features zero_ring = 0"
    by (simp_all add: zero_ring_def)
  have same: "io_uring_queue_mmap k fd p zero_ring w = io_uring_queue_mmap k fd p ring0 w"
    by (simp add: io_uring_queue_mmap_def)
  have failed: "r < 0"
    if "mmap_replies_ok w" "MAP_FAILED \<in> set (mmap_results (new_calls w w'))"
  proof -
    have "r \<noteq> 0" using io_uring_mmap_failed_iff [OF m that(1)] that(2) res(2) by simp
    moreover have "r \<le> 0"
      using io_uring_mmap_result_sign [OF that(1), of k fd p "ring_sq zero_ring" "ring_cq zero_ring"]
      by (simp add: m)
    ultimately show ?thesis by simp
  qed
  show ?thesis
  proof (cases "r = 0")
    case True
    then show ?thesis using res m z same run failed by auto
  next
    case False
    then show ?thesis using res m z same run failed by auto
  qed
qed

theorem io_uring_queue_mmap_flags_fd_witness:
  "fst (io_uring_queue_mmap linux_uapi 3 (params_8\<lparr>p_flags := 2\<rparr>) zero_ring world_ok) = 0
   \<and> ring_flags (fst (snd (io_uring_queue_mmap linux_uapi 3 (params_8\<lparr>p_flags := 2\<rparr>)
         zero_ring world_ok))) = 2
   \<and> ring_fd (fst (snd (io_uring_queue_mmap linux_uapi 3 (params_8\<lparr>p_flags := 2\<rparr>)
         zero_ring world_ok))) = 3
   \<and> fst (io_uring_queue_mmap linux_uapi 3 (params_8\<lparr>p_flags := 2\<rparr>) zero_ring
         (world_ok\<lparr>mmap_replies := [Inr 0x10000, Inl ENOMEM]\<rparr>)) = - ENOMEM
   \<and> ring_flags (fst (snd (io_uring_queue_mmap linux_uapi 3 (params_8\<lparr>p_flags := 2\<rparr>)
         zero_ring (world_ok\<lparr>mmap_replies := [Inr 0x10000, Inl ENOMEM]\<rparr>)))) = 0
   \<and> ring_fd (fst (snd (io_uring_queue_mmap linux_uapi 3 (params_8\<lparr>p_flags := 2\<rparr>)
         zero_ring (world_ok\<lparr>mmap_replies := [Inr 0x10000, Inl ENOMEM]\<rparr>)))) = 0"
proof -
  let ?p = "params_8\<lparr>p_flags := 2\<rparr>"
  let ?w = "world_ok\<lparr>mmap_replies := [Inr 0x10000, Inl ENOMEM]\<rparr>"
  let ?a = "io_uring_queue_mmap linux_uapi 3 ?p zero_ring world_ok"
  let ?b = "io_uring_queue_mmap linux_uapi 3 ?p zero_ring ?w"
  have ea: "?a = (fst ?a, fst (snd ?a), snd (snd ?a))" by simp
  have eb: "?b = (fst ?b, fst (snd ?b), snd (snd ?b))" by simp
  have ra: "fst ?a = 0" by code_simp
  have rb: "fst ?b = - ENOMEM" by code_simp
  have fl: "p_flags ?p = 2" by simp
  show ?thesis
    using io_uring_queue_mmap_flags_fd [OF ea] io_uring_queue_mmap_flags_fd [OF eb] ra rb fl
    by (simp add: ENOMEM_def)
qed

section \<open>Claims about the capability probe\<close>

lemma io_uring_queue_exit_open_fds:
  "open_fds (io_uring_queue_exit k ring w) = remove1 (ring_fd ring) (open_fds w)"
  by (simp add: io_uring_queue_exit_def Let_def)

lemma io_uring_get_probe_ring_outcome:
  assumes "io_uring_get_probe_ring k ring w = (probe, w2)"
  shows "open_fds w2 = open_fds w" and "probe = 0 \<longleftrightarrow> malloc_fails w \<or> register_fails w"
  using assms
  by (auto simp: io_uring_get_probe_ring_def sys_malloc_def io_uring_register_probe_def Let_def
      malloc_fails_def register_fails_def split: list.splits if_splits)

text \<open>
  Claim C9: every call to \<^verbatim>\<open>io_uring_get_probe\<close> that creates its scratch ring (depth 2)
  destroys it before returning, whether the probe is obtained or the allocation or the
  registration query fails: its last calls are the teardown of that ring, and the
  descriptor of the ring is closed again. It returns \<^verbatim>\<open>NULL\<close> exactly when the creation of
  the scratch ring, the allocation of the probe or the registration query fails. The
  operating system is assumed to keep its promises (\<open>mmap_replies_ok\<close>,
  \<open>setup_replies_ok\<close>), so that a failed creation returns a negative result.
\<close>

theorem io_uring_get_probe_destroys_ring:
  assumes init: "io_uring_queue_init k 2 ring0 0 w = (r, ring, w1)"
    and env: "mmap_replies_ok w" "setup_replies_ok w"
    and run: "io_uring_get_probe k ring0 w = (probe, w')"
  shows "r \<le> 0
       \<and> (r < 0 \<longrightarrow> w' = w1 \<and> open_fds w' = open_fds w)
       \<and> (r = 0 \<longrightarrow>
            probe = fst (io_uring_get_probe_ring k ring w1)
            \<and> new_calls (snd (io_uring_get_probe_ring k ring w1)) w'
                = teardown_calls k ring (snd (io_uring_get_probe_ring k ring w1))
            \<and> open_fds w1 = ring_fd ring # open_fds w \<and> open_fds w' = open_fds w)
       \<and> (probe = 0 \<longleftrightarrow> r < 0 \<or> malloc_fails w \<or> register_fails w)"
proof -
  obtain p' where ip:
    "io_uring_queue_init_params k 2 ring0 (zero_params\<lparr>p_flags := 0\<rparr>) w = (r, ring, p', w1)"
    using init by (auto simp: io_uring_queue_init_def Let_def split: prod.splits)
  note out = io_uring_queue_init_params_outcome [OF ip env]
  obtain pr w2 where g: "io_uring_get_probe_ring k ring w1 = (pr, w2)" by force
  note gp = io_uring_get_probe_ring_outcome [OF g]
  have mf: "malloc_fails w1 = malloc_fails w" "register_fails w1 = register_fails w"
    using out(4,5) by (simp_all add: malloc_fails_def register_fails_def)
  show ?thesis
  proof (cases "r < 0")
    case True
    then have "(probe, w') = (0, w1)" using run by (simp add: io_uring_get_probe_def init)
    then show ?thesis using True out by simp
  next
    case False
    then have r0: "r = 0" using out(1) by simp
    have res: "probe = pr" "w' = io_uring_queue_exit k ring w2"
      using run False by (simp_all add: io_uring_get_probe_def init g Let_def)
    have calls: "new_calls w2 w' = teardown_calls k ring w2"
      unfolding res by (rule new_calls_append) (rule io_uring_queue_exit_trace)
    have fds: "open_fds w' = open_fds w"
      using out(2) [OF r0] gp(1) by (simp add: res io_uring_queue_exit_open_fds)
    show ?thesis using r0 res calls fds out(2) [OF r0] gp(2) mf by (simp add: g)
  qed
qed

theorem io_uring_get_probe_destroys_ring_witness:
  "fst (io_uring_get_probe linux_uapi zero_ring world_ok) = 0x5000
   \<and> open_fds (snd (io_uring_get_probe linux_uapi zero_ring world_ok)) = open_fds world_ok
   \<and> fst (io_uring_get_probe linux_uapi zero_ring (world_ok\<lparr>register_replies := [- 22]\<rparr>)) = 0
   \<and> drop 8 (trace (snd (io_uring_get_probe linux_uapi zero_ring
                             (world_ok\<lparr>register_replies := [- 22]\<rparr>))))
       = [Call_munmap 0x30000 512, Call_munmap 0x10000 608, Call_munmap 0x20000 576,
          Call_close 3]
   \<and> open_fds (snd (io_uring_get_probe linux_uapi zero_ring
                       (world_ok\<lparr>register_replies := [- 22]\<rparr>)))
       = open_fds (world_ok\<lparr>register_replies := [- 22]\<rparr>)"
proof -
  let ?w = "world_ok\<lparr>register_replies := [- 22]\<rparr>"
  let ?i = "io_uring_queue_init linux_uapi 2 zero_ring 0 world_ok"
  let ?j = "io_uring_queue_init linux_uapi 2 zero_ring 0 ?w"
  let ?a = "io_uring_get_probe linux_uapi zero_ring world_ok"
  let ?b = "io_uring_get_probe linux_uapi zero_ring ?w"
  have ei: "?i = (fst ?i, fst (snd ?i), snd (snd ?i))" by simp
  have ej: "?j = (fst ?j, fst (snd ?j), snd (snd ?j))" by simp
  have ea: "?a = (fst ?a, snd ?a)" by simp
  have eb: "?b = (fst ?b, snd ?b)" by simp
  have env: "mmap_replies_ok world_ok" "setup_replies_ok world_ok"
    "mmap_replies_ok ?w" "setup_replies_ok ?w"
    by code_simp+
  have r: "fst ?i = 0" "fst ?j = 0" by code_simp+
  have pa: "fst ?a = 0x5000" by code_simp
  have pb: "fst ?b = 0" by code_simp
  have tb: "drop 8 (trace (snd ?b))
       = [Call_munmap 0x30000 512, Call_munmap 0x10000 608, Call_munmap 0x20000 576,
          Call_close 3]"
    by code_simp
  show ?thesis
    using io_uring_get_probe_destroys_ring [OF ei env(1,2) ea]
      io_uring_get_probe_destroys_ring [OF ej env(3,4) eb] r pa pb tb
    by simp
qed

end
